theory Spec2Isabelle
  imports Main "HOL-Library.Sublist"
begin

section \<open>Data model of setup\_cluster.py\<close>

text \<open>
  The script drives a cluster through a client library. The library calls are the
  environment of the model: every call is answered by a field of \<open>cluster\<close>, indexed by
  the number of calls of that kind issued so far, so that any sequence of answers can be
  written down. Everything the script does to the outside (calls issued, seconds slept,
  log records) is collected in \<open>world\<close>, which is threaded through every function and
  returned also when an exception is raised.
\<close>

datatype error =
    TimeoutError string
  | FileNotFoundError string
  | KeyError string
  | OtherError string

text \<open>One entry of the operator configuration document.\<close>

record operator =
  name :: string
  channel :: string
  catalogSource :: string
  namespace :: string
  version :: string
  correspondingPods :: "string list"

text \<open>
  A container status is a mapping; the script reads its \<open>'started'\<close> entry for
  truthiness. A pod has a name and a status mapping, of which the script reads the
  \<open>'containerStatuses'\<close> entry.
\<close>

type_synonym container = "string \<rightharpoonup> bool"

record pod =
  pod_name :: string
  status :: "string \<rightharpoonup> container list"

text \<open>The keyword arguments of one \<open>install_operator\<close> call.\<close>

record install_call =
  target_namespaces :: "string list"
  install_name :: string
  install_channel :: string
  install_source :: string
  operator_namespace :: string
  install_timeout :: nat
  install_plan_approval :: string
  starting_csv :: string

datatype resource_request =
    DSCInitialization_file string
  | DataScienceCluster_doc string

datatype level = INFO | ERROR

datatype fmt_arg = Str string | StrSet "string list" | Exc error

type_synonym log_record = "level \<times> string \<times> fmt_arg list"

record cluster =
  list_catalog_sources :: "nat \<Rightarrow> string list"
  list_package_manifests :: "nat \<Rightarrow> string list"
  list_pods :: "nat \<Rightarrow> string \<Rightarrow> pod list"
  install_operator_result :: "nat \<Rightarrow> install_call \<Rightarrow> error option"
  create_result :: "resource_request \<Rightarrow> error option"
  read_file :: "string \<Rightarrow> error + string"
  yaml_load :: "string \<Rightarrow> error + operator list"

record world =
  catalog_gets :: nat
  manifest_gets :: nat
  pod_gets :: "string list"
  slept :: nat
  installs :: "install_call list"
  created :: "resource_request list"
  log :: "log_record list"

definition DEFAULT_REPO :: string where
  "DEFAULT_REPO = ''https://github.com/trustyai-explainability/trustyai-service-operator/tarball/main''"

definition RECHECK_INTERVAL :: nat where
  "RECHECK_INTERVAL = 5"

section \<open>Primitive effects\<close>

definition logger_info :: "string \<Rightarrow> fmt_arg list \<Rightarrow> world \<Rightarrow> world" where
  "logger_info template args w = w\<lparr>log := log w @ [(INFO, template, args)]\<rparr>"

definition logger_error :: "string \<Rightarrow> fmt_arg list \<Rightarrow> world \<Rightarrow> world" where
  "logger_error template args w = w\<lparr>log := log w @ [(ERROR, template, args)]\<rparr>"

definition header :: "string \<Rightarrow> world \<Rightarrow> world" where
  "header text w = logger_info ''============== {} =============='' [Str text] w"

definition sleep :: "nat \<Rightarrow> world \<Rightarrow> world" where
  "sleep secs w = w\<lparr>slept := slept w + secs\<rparr>"

definition CatalogSource_get :: "cluster \<Rightarrow> world \<Rightarrow> string list \<times> world" where
  "CatalogSource_get env w =
     (list_catalog_sources env (catalog_gets w), w\<lparr>catalog_gets := Suc (catalog_gets w)\<rparr>)"

definition PackageManifest_get :: "cluster \<Rightarrow> world \<Rightarrow> string list \<times> world" where
  "PackageManifest_get env w =
     (list_package_manifests env (manifest_gets w), w\<lparr>manifest_gets := Suc (manifest_gets w)\<rparr>)"

definition Pod_get :: "cluster \<Rightarrow> string \<Rightarrow> world \<Rightarrow> pod list \<times> world" where
  "Pod_get env ns w =
     (list_pods env (length (pod_gets w)) ns, w\<lparr>pod_gets := pod_gets w @ [ns]\<rparr>)"

text \<open>Subscription of a mapping: a missing key raises \<open>KeyError\<close>.\<close>

definition getitem :: "(string \<rightharpoonup> 'v) \<Rightarrow> string \<Rightarrow> error + 'v" where
  "getitem m k = (case m k of None \<Rightarrow> Inl (KeyError k) | Some v \<Rightarrow> Inr v)"

section \<open>wait\_for\_catalog\_sources\<close>

definition catalog_timeout_msg :: "string \<Rightarrow> string" where
  "catalog_timeout_msg catalog_source = ''Catalog Source '' @ catalog_source @ '' not found''"

text \<open>
  The \<open>while True\<close> loop for one catalog source. The result carries the value of the
  local variable \<open>tries\<close> at the moment the loop is left.
\<close>

function catalog_while ::
  "cluster \<Rightarrow> string list \<Rightarrow> string \<Rightarrow> nat \<Rightarrow> world \<Rightarrow> error option \<times> nat \<times> world" where
  "catalog_while env catalog_sources catalog_source tries w =
     (let (available_sources, w1) = CatalogSource_get env w in
      if catalog_source \<in> set available_sources
      then (None, tries, logger_info ''{} catalog found'' [StrSet catalog_sources] w1)
      else
        let w2 = sleep RECHECK_INTERVAL w1 in
        if tries > 300 div RECHECK_INTERVAL
        then (Some (TimeoutError (catalog_timeout_msg catalog_source)), tries,
              logger_error ''Catalog Source {} not found'' [Str catalog_source] w2)
        else catalog_while env catalog_sources catalog_source (tries + 1) w2)"
  by pat_completeness auto
termination
  by (relation "measure (\<lambda>(env, cs, c, tries, w). Suc (300 div RECHECK_INTERVAL) - tries)")
     (auto simp: RECHECK_INTERVAL_def)

fun catalog_for ::
  "cluster \<Rightarrow> string list \<Rightarrow> string list \<Rightarrow> world \<Rightarrow> error option \<times> world" where
  "catalog_for env catalog_sources [] w = (None, w)"
| "catalog_for env catalog_sources (catalog_source # rest) w =
     (case catalog_while env catalog_sources catalog_source 0 w of
        (Some e, tries, w1) \<Rightarrow> (Some e, w1)
      | (None, tries, w1) \<Rightarrow> catalog_for env catalog_sources rest w1)"

text \<open>
  \<open>catalog_sources\<close> is a Python set; the order in which the \<open>for\<close> loop visits it is
  not fixed by the language. The parameter \<open>iter\<close> gives that order: it maps the
  values produced by the set comprehension to the sequence the loop visits.
\<close>

definition wait_for_catalog_sources ::
  "(string list \<Rightarrow> string list) \<Rightarrow> cluster \<Rightarrow> operator list \<Rightarrow> world \<Rightarrow> error option \<times> world" where
  "wait_for_catalog_sources iter env operator_data w =
     (let w1 = header ''Waiting for Catalog Sources'' w;
          catalog_sources = iter (map catalogSource operator_data)
      in catalog_for env catalog_sources catalog_sources w1)"

section \<open>wait\_for\_package\_manifests\<close>

definition manifest_timeout_msg :: "string \<Rightarrow> string" where
  "manifest_timeout_msg n = ''Package Manifests for '' @ n @ '' not found''"

text \<open>
  The \<open>while not found\<close> loop for one operator. \<open>previous_return_list\<close> is the local
  variable that survives from one operator to the next; the result carries it and the
  final value of \<open>tries\<close>.
\<close>

function manifest_while ::
  "cluster \<Rightarrow> string \<Rightarrow> nat \<Rightarrow> string list option \<Rightarrow> world
     \<Rightarrow> error option \<times> nat \<times> string list option \<times> world" where
  "manifest_while env operator_name tries previous_return_list w =
     (let (package_manifests, previous_return_list', w1) =
            (case (if tries = 0 then previous_return_list else None) of
               Some cached \<Rightarrow> (cached, previous_return_list, w)
             | None \<Rightarrow>
                 (let (fetched, w') = PackageManifest_get env w in (fetched, Some fetched, w')));
          found = (operator_name \<in> set package_manifests);
          w2 = (if found then logger_info ''{} package manifest found'' [Str operator_name] w1 else w1);
          w3 = (if \<not> found then sleep RECHECK_INTERVAL w2 else w2)
      in
        if tries > 900 div RECHECK_INTERVAL
        then (Some (TimeoutError (manifest_timeout_msg operator_name)), tries, previous_return_list',
              logger_error ''Package Manifests for {} not found'' [Str operator_name] w3)
        else if found then (None, tries + 1, previous_return_list', w3)
        else manifest_while env operator_name (tries + 1) previous_return_list' w3)"
  by pat_completeness auto
termination
  by (relation "measure (\<lambda>(env, n, tries, p, w). Suc (900 div RECHECK_INTERVAL) - tries)")
     (auto simp: RECHECK_INTERVAL_def)

fun manifest_for ::
  "cluster \<Rightarrow> operator list \<Rightarrow> string list option \<Rightarrow> world \<Rightarrow> error option \<times> world" where
  "manifest_for env [] previous_return_list w = (None, w)"
| "manifest_for env (operator # rest) previous_return_list w =
     (case manifest_while env (name operator) 0 previous_return_list w of
        (Some e, tries, previous_return_list', w1) \<Rightarrow> (Some e, w1)
      | (None, tries, previous_return_list', w1) \<Rightarrow> manifest_for env rest previous_return_list' w1)"

definition wait_for_package_manifests ::
  "cluster \<Rightarrow> operator list \<Rightarrow> world \<Rightarrow> error option \<times> world" where
  "wait_for_package_manifests env operator_data w =
     manifest_for env operator_data None (header ''Waiting for Package Manifests'' w)"

section \<open>install\_operators\<close>

definition install_request :: "operator \<Rightarrow> install_call" where
  "install_request operator =
     \<lparr>target_namespaces = [],
      install_name = name operator,
      install_channel = channel operator,
      install_source = catalogSource operator,
      operator_namespace = namespace operator,
      install_timeout = 600,
      install_plan_approval = ''Manual'',
      starting_csv = name operator @ ''.v'' @ version operator\<rparr>"

text \<open>
  Every \<open>install_operator\<close> call is recorded in \<open>installs\<close> when it is issued; the
  environment then answers it, possibly with an exception, which nothing catches.
\<close>

fun install_for :: "cluster \<Rightarrow> operator list \<Rightarrow> world \<Rightarrow> error option \<times> world" where
  "install_for env [] w = (None, w)"
| "install_for env (operator # rest) w =
     (let call = install_request operator;
          w1 = w\<lparr>installs := installs w @ [call]\<rparr>
      in case install_operator_result env (length (installs w)) call of
           Some e \<Rightarrow> (Some e, w1)
         | None \<Rightarrow> install_for env rest w1)"

definition install_operators :: "cluster \<Rightarrow> operator list \<Rightarrow> world \<Rightarrow> error option \<times> world" where
  "install_operators env operator_data w =
     install_for env operator_data (header ''Installing Operators'' w)"

section \<open>verify\_operator\_running\<close>

text \<open>
  \<open>sum([1 for container in pod.exists.status['containerStatuses'] if container['started']])\<close>:
  the comprehension subscripts every container in order, so the first missing key
  raises.
\<close>

fun count_started :: "container list \<Rightarrow> error + nat" where
  "count_started [] = Inr 0"
| "count_started (container # rest) =
     (case getitem container ''started'' of
        Inl e \<Rightarrow> Inl e
      | Inr started \<Rightarrow>
          (case count_started rest of
             Inl e \<Rightarrow> Inl e
           | Inr n \<Rightarrow> Inr (if started then n + 1 else n)))"

definition num_running_containers :: "pod \<Rightarrow> error + nat" where
  "num_running_containers p =
     (case getitem (status p) ''containerStatuses'' of
        Inl e \<Rightarrow> Inl e
      | Inr containers \<Rightarrow> count_started containers)"

text \<open>
  The \<open>for pod in running_pods\<close> loop: the container count is computed for every pod
  that is visited, before its name is looked at; the loop stops at the first pod whose
  name contains the target and that has exactly one started container.
\<close>

fun pods_for :: "string \<Rightarrow> pod list \<Rightarrow> error + bool" where
  "pods_for target_pod_name [] = Inr False"
| "pods_for target_pod_name (p # rest) =
     (case num_running_containers p of
        Inl e \<Rightarrow> Inl e
      | Inr n \<Rightarrow>
          if sublist target_pod_name (pod_name p) \<and> n = 1 then Inr True
          else pods_for target_pod_name rest)"

definition pod_timeout_msg :: "string \<Rightarrow> string" where
  "pod_timeout_msg target_pod_name = ''Timeout waiting for '' @ target_pod_name @ '' pod''"

function pod_while ::
  "cluster \<Rightarrow> string \<Rightarrow> string \<Rightarrow> nat \<Rightarrow> pod list option \<Rightarrow> world
     \<Rightarrow> error option \<times> nat \<times> pod list option \<times> world" where
  "pod_while env ns target_pod_name tries previous_return_list w =
     (let (running_pods, previous_return_list', w1) =
            (case (if tries = 0 then previous_return_list else None) of
               Some cached \<Rightarrow> (cached, previous_return_list, w)
             | None \<Rightarrow>
                 (let (fetched, w') = Pod_get env ns w in (fetched, Some fetched, w')))
      in
        case pods_for target_pod_name running_pods of
          Inl e \<Rightarrow> (Some e, tries, previous_return_list', w1)
        | Inr found \<Rightarrow>
            (let w2 = (if found then logger_info ''{} pod running'' [Str target_pod_name] w1 else w1);
                 w3 = (if \<not> found then sleep RECHECK_INTERVAL w2 else w2)
             in
               if tries > RECHECK_INTERVAL div RECHECK_INTERVAL
               then (Some (TimeoutError (pod_timeout_msg target_pod_name)), tries,
                     previous_return_list',
                     logger_error ''Timeout waiting for {} pod'' [Str target_pod_name] w3)
               else if found then (None, tries + 1, previous_return_list', w3)
               else pod_while env ns target_pod_name (tries + 1) previous_return_list' w3))"
  by pat_completeness auto
termination
  by (relation "measure (\<lambda>(env, ns, t, tries, p, w). Suc (RECHECK_INTERVAL div RECHECK_INTERVAL) - tries)")
     (auto simp: RECHECK_INTERVAL_def)

fun targets_for ::
  "cluster \<Rightarrow> string \<Rightarrow> string list \<Rightarrow> pod list option \<Rightarrow> world
     \<Rightarrow> error option \<times> pod list option \<times> world" where
  "targets_for env ns [] previous_return_list w = (None, previous_return_list, w)"
| "targets_for env ns (target_pod_name # rest) previous_return_list w =
     (case pod_while env ns target_pod_name 0 previous_return_list w of
        (Some e, tries, previous_return_list', w1) \<Rightarrow> (Some e, previous_return_list', w1)
      | (None, tries, previous_return_list', w1) \<Rightarrow> targets_for env ns rest previous_return_list' w1)"

fun operators_for ::
  "cluster \<Rightarrow> operator list \<Rightarrow> pod list option \<Rightarrow> world \<Rightarrow> error option \<times> world" where
  "operators_for env [] previous_return_list w = (None, w)"
| "operators_for env (operator # rest) previous_return_list w =
     (case targets_for env (namespace operator) (correspondingPods operator) previous_return_list w of
        (Some e, previous_return_list', w1) \<Rightarrow> (Some e, w1)
      | (None, previous_return_list', w1) \<Rightarrow> operators_for env rest previous_return_list' w1)"

definition verify_operator_running ::
  "cluster \<Rightarrow> operator list \<Rightarrow> world \<Rightarrow> error option \<times> world" where
  "verify_operator_running env operator_data w =
     operators_for env operator_data None (header ''Verifying Operator Pods'' w)"

section \<open>install\_dsci and install\_datascience\_cluster\<close>

definition create_resource :: "cluster \<Rightarrow> resource_request \<Rightarrow> world \<Rightarrow> error option \<times> world" where
  "create_resource env request w = (create_result env request, w\<lparr>created := created w @ [request]\<rparr>)"

definition install_dsci :: "cluster \<Rightarrow> world \<Rightarrow> error option \<times> world" where
  "install_dsci env w =
     create_resource env (DSCInitialization_file ''manifests/dsci.yaml'') (header ''Installing DSCI'' w)"

text \<open>
  \<open>str.replace(old, new)\<close>: the occurrences of \<open>old\<close> are found from the left and do not
  overlap. For an empty \<open>old\<close> Python puts \<open>new\<close> before every character and at the end.
\<close>

function replace_scan :: "string \<Rightarrow> string \<Rightarrow> string \<Rightarrow> string" where
  "replace_scan old new [] = []"
| "replace_scan old new (c # cs) =
     (if old \<noteq> [] \<and> prefix old (c # cs)
      then new @ replace_scan old new (drop (length old) (c # cs))
      else c # replace_scan old new cs)"
  by pat_completeness auto
termination
  by (relation "measure (\<lambda>(old, new, s). length s)") auto

definition str_replace :: "string \<Rightarrow> string \<Rightarrow> string \<Rightarrow> string" where
  "str_replace old new s =
     (if old = [] then new @ concat (map (\<lambda>c. c # new) s) else replace_scan old new s)"

definition PLACEHOLDER :: string where
  "PLACEHOLDER = ''TRUSTYAI_REPO_PLACEHOLDER''"

definition dsc_config :: "string \<Rightarrow> string \<Rightarrow> string" where
  "dsc_config template trustyai_manifests_url = str_replace PLACEHOLDER trustyai_manifests_url template"

definition install_datascience_cluster :: "cluster \<Rightarrow> string \<Rightarrow> world \<Rightarrow> error option \<times> world" where
  "install_datascience_cluster env trustyai_manifests_url w =
     (let w1 = header ''Installing Datascience Cluster'' w;
          w2 = logger_info ''Using manifests from {}'' [Str trustyai_manifests_url] w1
      in case read_file env ''manifests/dsc_template.yaml'' of
           Inl e \<Rightarrow> (Some e, w2)
         | Inr template \<Rightarrow>
             create_resource env (DataScienceCluster_doc (dsc_config template trustyai_manifests_url)) w2)"

section \<open>setup\_cluster\<close>

text \<open>Statement sequencing: an exception skips everything that follows.\<close>

definition and_then ::
  "error option \<times> world \<Rightarrow> (world \<Rightarrow> error option \<times> world) \<Rightarrow> error option \<times> world" where
  "and_then r f = (case r of (None, w) \<Rightarrow> f w | (Some e, w) \<Rightarrow> (Some e, w))"

definition load_config :: "cluster \<Rightarrow> string \<Rightarrow> error + operator list" where
  "load_config env operator_config_yaml =
     (case read_file env operator_config_yaml of
        Inl e \<Rightarrow> Inl e
      | Inr text \<Rightarrow> yaml_load env text)"

definition setup_stages ::
  "(string list \<Rightarrow> string list) \<Rightarrow> cluster \<Rightarrow> operator list \<Rightarrow> string \<Rightarrow> world
     \<Rightarrow> error option \<times> world" where
  "setup_stages iter env operator_data trustyai_manifests_url w =
     and_then (and_then (and_then (and_then (and_then
       (wait_for_catalog_sources iter env operator_data w)
       (wait_for_package_manifests env operator_data))
       (install_operators env operator_data))
       (verify_operator_running env operator_data))
       (install_dsci env))
       (install_datascience_cluster env trustyai_manifests_url)"

definition setup_cluster ::
  "(string list \<Rightarrow> string list) \<Rightarrow> cluster \<Rightarrow> string \<Rightarrow> string \<Rightarrow> world
     \<Rightarrow> error option \<times> world" where
  "setup_cluster iter env operator_config_yaml trustyai_manifests_url w =
     (case load_config env operator_config_yaml of
        Inl (FileNotFoundError m) \<Rightarrow>
          (Some (FileNotFoundError m),
           logger_error ''Operator config yaml not found, make sure your working directory is trustyai-tests/'' []
             (logger_error ''{}'' [Exc (FileNotFoundError m)] w))
      | Inl e \<Rightarrow> (Some e, w)
      | Inr operator_data \<Rightarrow> setup_stages iter env operator_data trustyai_manifests_url w)"

definition main :: "(string list \<Rightarrow> string list) \<Rightarrow> cluster \<Rightarrow> string list \<Rightarrow> world \<Rightarrow> error option \<times> world" where
  "main iter env argv w =
     setup_cluster iter env ''setup/operators_config.yaml''
       (if length argv > 1 then argv ! 1 else DEFAULT_REPO) w"

section \<open>Vocabulary of the properties\<close>

text \<open>
  The list a polling loop looks at on its attempt number \<open>j\<close> (counted from 0), when it
  is entered with the cache \<open>previous_return_list\<close> and \<open>fetch i\<close> is the answer to the
  \<open>i\<close>-th listing call the loop issues: with a cached list, attempt 0 looks at the cache
  and attempt \<open>j + 1\<close> at the \<open>j\<close>-th fresh listing.
\<close>

definition examined :: "'a list option \<Rightarrow> (nat \<Rightarrow> 'a list) \<Rightarrow> nat \<Rightarrow> 'a list" where
  "examined previous_return_list fetch j =
     (case previous_return_list of
        None \<Rightarrow> fetch j
      | Some cached \<Rightarrow> if j = 0 then cached else fetch (j - 1))"

text \<open>
  \<open>first_listing probes c n k\<close>: the index of the first catalog-source listing among
  the \<open>k\<close> listings \<open>n, n + 1, ...\<close> that contains \<open>c\<close>.
\<close>

fun first_listing :: "(nat \<Rightarrow> string list) \<Rightarrow> string \<Rightarrow> nat \<Rightarrow> nat \<Rightarrow> nat option" where
  "first_listing probes c n 0 = None"
| "first_listing probes c n (Suc k) =
     (if c \<in> set (probes n) then Some n else first_listing probes c (Suc n) k)"

text \<open>
  The catalog sources, awaited one after the other from listing \<open>n\<close> on, each appear in
  one of the \<open>300 // RECHECK_INTERVAL + 2\<close> listings that start where the wait for the
  one before ended.
\<close>

fun awaited_in_turn :: "(nat \<Rightarrow> string list) \<Rightarrow> nat \<Rightarrow> string list \<Rightarrow> bool" where
  "awaited_in_turn probes n [] = True"
| "awaited_in_turn probes n (c # cs) =
     (case first_listing probes c n (300 div RECHECK_INTERVAL + 2) of
        None \<Rightarrow> False
      | Some i \<Rightarrow> awaited_in_turn probes (Suc i) cs)"






text \<open>\<open>sep.join(parts)\<close> and \<open>s.split(sep)\<close> for a non-empty separator.\<close>

fun str_join :: "string \<Rightarrow> string list \<Rightarrow> string" where
  "str_join sep [] = []"
| "str_join sep [p] = p"
| "str_join sep (p # q # ps) = p @ sep @ str_join sep (q # ps)"

function str_split :: "string \<Rightarrow> string \<Rightarrow> string list" where
  "str_split sep [] = [[]]"
| "str_split sep (c # cs) =
     (if sep \<noteq> [] \<and> prefix sep (c # cs)
      then [] # str_split sep (drop (length sep) (c # cs))
      else (case str_split sep cs of
              [] \<Rightarrow> [[c]]
            | p # ps \<Rightarrow> (c # p) # ps))"
  by pat_completeness auto
termination
  by (relation "measure (\<lambda>(sep, s). length s)") auto

text \<open>Running a list of stages in order, stopping at the first one that raises.\<close>

fun run_stages :: "(world \<Rightarrow> error option \<times> world) list \<Rightarrow> world \<Rightarrow> error option \<times> world" where
  "run_stages [] w = (None, w)"
| "run_stages (stage # rest) w =
     (case stage w of
        (Some e, w1) \<Rightarrow> (Some e, w1)
      | (None, w1) \<Rightarrow> run_stages rest w1)"

section \<open>Concrete clusters for the examples\<close>

definition initial_world :: world where
  "initial_world =
     \<lparr>catalog_gets = 0, manifest_gets = 0, pod_gets = [], slept = 0, installs = [], created = [],
      log = []\<rparr>"

definition empty_cluster :: cluster where
  "empty_cluster =
     \<lparr>list_catalog_sources = (\<lambda>i. []),
      list_package_manifests = (\<lambda>i. []),
      list_pods = (\<lambda>i ns. []),
      install_operator_result = (\<lambda>i call. None),
      create_result = (\<lambda>request. None),
      read_file = (\<lambda>path. Inl (FileNotFoundError path)),
      yaml_load = (\<lambda>text. Inr [])\<rparr>"

definition example_operator :: operator where
  "example_operator =
     \<lparr>name = ''opendatahub-operator'', channel = ''fast'', catalogSource = ''community-operators'',
      namespace = ''openshift-operators'', version = ''2.10.0'',
      correspondingPods = [''trustyai-operator'']\<rparr>"



text \<open>
  A second operator, in a namespace of its own, and a cluster that lists the pod
  \<open>trustyai-operator-abc\<close> in the namespace \<open>openshift-operators\<close> only.
\<close>

definition other_operator :: operator where
  "other_operator =
     \<lparr>name = ''other-operator'', channel = ''stable'', catalogSource = ''redhat-operators'',
      namespace = ''other-namespace'', version = ''1.0.0'',
      correspondingPods = [''trustyai'']\<rparr>"


text \<open>A cluster whose template file holds the placeholder twice.\<close>

definition template_cluster :: cluster where
  "template_cluster =
     empty_cluster\<lparr>read_file := (\<lambda>path.
       if path = ''manifests/dsc_template.yaml''
       then Inr ''a: TRUSTYAI_REPO_PLACEHOLDER, b: TRUSTYAI_REPO_PLACEHOLDER!''
       else Inl (FileNotFoundError path))\<rparr>"

text \<open>
  Two clusters whose configuration file names \<open>example_operator\<close>: on the first the
  catalog source is listed and the package manifest never is; on the second both are
  listed, every installation succeeds and no pod ever appears.
\<close>

definition catalog_only_cluster :: cluster where
  "catalog_only_cluster =
     empty_cluster\<lparr>read_file := (\<lambda>path. Inr ''operators''),
                    yaml_load := (\<lambda>text. Inr [example_operator]),
                    list_catalog_sources := (\<lambda>i. [''community-operators''])\<rparr>"

definition no_pods_cluster :: cluster where
  "no_pods_cluster =
     catalog_only_cluster\<lparr>list_package_manifests := (\<lambda>i. [''opendatahub-operator''])\<rparr>"



text \<open>
  A cluster whose first listing of the catalog sources holds two sources and whose later
  listings are empty.
\<close>

definition flash_cluster :: cluster where
  "flash_cluster =
     empty_cluster\<lparr>list_catalog_sources :=
       (\<lambda>i. if i = 0 then [''community-operators'', ''redhat-operators''] else [])\<rparr>"

section \<open>Unfolding the loops\<close>

declare catalog_while.simps [simp del] manifest_while.simps [simp del] pod_while.simps [simp del]

lemma catalog_while_found:
  "c \<in> set (list_catalog_sources env (catalog_gets w)) \<Longrightarrow>
   catalog_while env cs c tries w =
     (None, tries, logger_info ''{} catalog found'' [StrSet cs] (w\<lparr>catalog_gets := Suc (catalog_gets w)\<rparr>))"
  by (simp add: catalog_while.simps [of env cs c tries w] CatalogSource_get_def)

lemma catalog_while_timeout:
  "c \<notin> set (list_catalog_sources env (catalog_gets w)) \<Longrightarrow> tries > 300 div RECHECK_INTERVAL \<Longrightarrow>
   catalog_while env cs c tries w =
     (Some (TimeoutError (catalog_timeout_msg c)), tries,
      logger_error ''Catalog Source {} not found'' [Str c]
        (sleep RECHECK_INTERVAL (w\<lparr>catalog_gets := Suc (catalog_gets w)\<rparr>)))"
  by (simp add: catalog_while.simps [of env cs c tries w] CatalogSource_get_def)

lemma catalog_while_retry:
  "c \<notin> set (list_catalog_sources env (catalog_gets w)) \<Longrightarrow> \<not> tries > 300 div RECHECK_INTERVAL \<Longrightarrow>
   catalog_while env cs c tries w =
     catalog_while env cs c (Suc tries) (sleep RECHECK_INTERVAL (w\<lparr>catalog_gets := Suc (catalog_gets w)\<rparr>))"
  by (simp add: catalog_while.simps [of env cs c tries w] CatalogSource_get_def)

lemma catalog_while_absent:
  "tries + k = 61 \<Longrightarrow> \<forall>j\<le>k. c \<notin> set (list_catalog_sources env (catalog_gets w + j)) \<Longrightarrow>
   \<exists>w'. catalog_while env cs c tries w = (Some (TimeoutError (catalog_timeout_msg c)), 61, w')
       \<and> catalog_gets w' = catalog_gets w + k + 1 \<and> slept w' = slept w + RECHECK_INTERVAL * (k + 1)"
proof (induction k arbitrary: tries w)
  case 0
  then show ?case
    by (simp add: catalog_while_timeout RECHECK_INTERVAL_def logger_error_def sleep_def)
next
  case (Suc k)
  let ?w = "sleep RECHECK_INTERVAL (w\<lparr>catalog_gets := Suc (catalog_gets w)\<rparr>)"
  from Suc.prems have absent: "c \<notin> set (list_catalog_sources env (catalog_gets w))"
    by (metis add.right_neutral le0)
  from Suc.prems have small: "\<not> tries > 300 div RECHECK_INTERVAL"
    by (simp add: RECHECK_INTERVAL_def)
  have rest: "\<forall>j\<le>k. c \<notin> set (list_catalog_sources env (catalog_gets ?w + j))"
    using Suc.prems(2) by (auto simp: sleep_def)
  from Suc.prems have "Suc tries + k = 61" by simp
  from Suc.IH [OF this rest] show ?case
    by (auto simp: catalog_while_retry [OF absent small] sleep_def)
qed

lemma catalog_while_hit:
  "tries + k \<le> 61 \<Longrightarrow> c \<in> set (list_catalog_sources env (catalog_gets w + k)) \<Longrightarrow>
   \<forall>j<k. c \<notin> set (list_catalog_sources env (catalog_gets w + j)) \<Longrightarrow>
   \<exists>w'. catalog_while env cs c tries w = (None, tries + k, w')
       \<and> catalog_gets w' = catalog_gets w + k + 1 \<and> slept w' = slept w + RECHECK_INTERVAL * k"
proof (induction k arbitrary: tries w)
  case 0
  then show ?case
    by (simp add: catalog_while_found logger_info_def)
next
  case (Suc k)
  let ?w = "sleep RECHECK_INTERVAL (w\<lparr>catalog_gets := Suc (catalog_gets w)\<rparr>)"
  from Suc.prems have absent: "c \<notin> set (list_catalog_sources env (catalog_gets w))"
    by (metis add.right_neutral zero_less_Suc)
  from Suc.prems have small: "\<not> tries > 300 div RECHECK_INTERVAL"
    by (simp add: RECHECK_INTERVAL_def)
  have hit: "c \<in> set (list_catalog_sources env (catalog_gets ?w + k))"
    using Suc.prems(2) by (simp add: sleep_def)
  have rest: "\<forall>j<k. c \<notin> set (list_catalog_sources env (catalog_gets ?w + j))"
    using Suc.prems(3) by (auto simp: sleep_def)
  from Suc.prems have "Suc tries + k \<le> 61" by simp
  from Suc.IH [OF this hit rest] show ?case
    by (auto simp: catalog_while_retry [OF absent small] sleep_def)
qed


lemma manifest_while_last:
  "tries > 900 div RECHECK_INTERVAL \<Longrightarrow>
   \<exists>p' w'. manifest_while env n tries prev w = (Some (TimeoutError (manifest_timeout_msg n)), tries, p', w')
       \<and> manifest_gets w' = Suc (manifest_gets w)"
  by (simp add: manifest_while.simps [of env n tries prev w] PackageManifest_get_def Let_def
        logger_error_def logger_info_def sleep_def RECHECK_INTERVAL_def)

lemma manifest_while_fetch_retry:
  "tries \<noteq> 0 \<or> prev = None \<Longrightarrow> \<not> tries > 900 div RECHECK_INTERVAL \<Longrightarrow>
   n \<notin> set (list_package_manifests env (manifest_gets w)) \<Longrightarrow>
   manifest_while env n tries prev w =
     manifest_while env n (Suc tries) (Some (list_package_manifests env (manifest_gets w)))
       (sleep RECHECK_INTERVAL (w\<lparr>manifest_gets := Suc (manifest_gets w)\<rparr>))"
  by (auto simp add: manifest_while.simps [of env n tries prev w] PackageManifest_get_def Let_def)

lemma manifest_while_fetch_found:
  "tries \<noteq> 0 \<or> prev = None \<Longrightarrow> \<not> tries > 900 div RECHECK_INTERVAL \<Longrightarrow>
   n \<in> set (list_package_manifests env (manifest_gets w)) \<Longrightarrow>
   manifest_while env n tries prev w =
     (None, Suc tries, Some (list_package_manifests env (manifest_gets w)),
      logger_info ''{} package manifest found'' [Str n] (w\<lparr>manifest_gets := Suc (manifest_gets w)\<rparr>))"
  by (auto simp add: manifest_while.simps [of env n tries prev w] PackageManifest_get_def Let_def)

lemma manifest_while_cached_retry:
  "n \<notin> set cached \<Longrightarrow>
   manifest_while env n 0 (Some cached) w =
     manifest_while env n (Suc 0) (Some cached) (sleep RECHECK_INTERVAL w)"
  by (simp add: manifest_while.simps [of env n 0 "Some cached" w] Let_def RECHECK_INTERVAL_def)

lemma manifest_while_cached_found:
  "n \<in> set cached \<Longrightarrow>
   manifest_while env n 0 (Some cached) w =
     (None, Suc 0, Some cached, logger_info ''{} package manifest found'' [Str n] w)"
  by (simp add: manifest_while.simps [of env n 0 "Some cached" w] Let_def RECHECK_INTERVAL_def)

lemma manifest_while_absent_fetch:
  "tries \<noteq> 0 \<or> prev = None \<Longrightarrow> tries + k = 181 \<Longrightarrow>
   \<forall>j<k. n \<notin> set (list_package_manifests env (manifest_gets w + j)) \<Longrightarrow>
   \<exists>p' w'. manifest_while env n tries prev w = (Some (TimeoutError (manifest_timeout_msg n)), 181, p', w')
       \<and> manifest_gets w' = manifest_gets w + k + 1"
proof (induction k arbitrary: tries prev w)
  case 0
  then have "tries > 900 div RECHECK_INTERVAL" by (simp add: RECHECK_INTERVAL_def)
  from manifest_while_last [OF this, of env n prev w] 0 show ?case by simp
next
  case (Suc k)
  let ?w = "sleep RECHECK_INTERVAL (w\<lparr>manifest_gets := Suc (manifest_gets w)\<rparr>)"
  let ?p = "Some (list_package_manifests env (manifest_gets w))"
  from Suc.prems have absent: "n \<notin> set (list_package_manifests env (manifest_gets w))"
    by (metis add.right_neutral zero_less_Suc)
  from Suc.prems have small: "\<not> tries > 900 div RECHECK_INTERVAL"
    by (simp add: RECHECK_INTERVAL_def)
  have rest: "\<forall>j<k. n \<notin> set (list_package_manifests env (manifest_gets ?w + j))"
    using Suc.prems(3) by (auto simp: sleep_def)
  from Suc.prems have "Suc tries + k = 181" by simp
  from Suc.IH [OF _ this rest, of ?p] show ?case
    by (auto simp: manifest_while_fetch_retry [OF Suc.prems(1) small absent] sleep_def)
qed

lemma manifest_while_hit_fetch:
  "tries \<noteq> 0 \<or> prev = None \<Longrightarrow> tries + k \<le> 180 \<Longrightarrow>
   n \<in> set (list_package_manifests env (manifest_gets w + k)) \<Longrightarrow>
   \<forall>j<k. n \<notin> set (list_package_manifests env (manifest_gets w + j)) \<Longrightarrow>
   \<exists>w'. manifest_while env n tries prev w =
           (None, Suc (tries + k), Some (list_package_manifests env (manifest_gets w + k)), w')
       \<and> manifest_gets w' = manifest_gets w + k + 1"
proof (induction k arbitrary: tries prev w)
  case 0
  then have small: "\<not> tries > 900 div RECHECK_INTERVAL" by (simp add: RECHECK_INTERVAL_def)
  from 0 show ?case
    by (simp add: manifest_while_fetch_found [OF "0.prems"(1) small] logger_info_def)
next
  case (Suc k)
  let ?w = "sleep RECHECK_INTERVAL (w\<lparr>manifest_gets := Suc (manifest_gets w)\<rparr>)"
  let ?p = "Some (list_package_manifests env (manifest_gets w))"
  from Suc.prems have absent: "n \<notin> set (list_package_manifests env (manifest_gets w))"
    by (metis add.right_neutral zero_less_Suc)
  from Suc.prems have small: "\<not> tries > 900 div RECHECK_INTERVAL"
    by (simp add: RECHECK_INTERVAL_def)
  have hit: "n \<in> set (list_package_manifests env (manifest_gets ?w + k))"
    using Suc.prems(3) by (simp add: sleep_def)
  have rest: "\<forall>j<k. n \<notin> set (list_package_manifests env (manifest_gets ?w + j))"
    using Suc.prems(4) by (auto simp: sleep_def)
  from Suc.prems have "Suc tries + k \<le> 180" by simp
  from Suc.IH [OF _ this hit rest, of ?p] show ?case
    by (auto simp: manifest_while_fetch_retry [OF Suc.prems(1) small absent] sleep_def)
qed

lemma first_hit:
  fixes P :: "nat \<Rightarrow> bool"
  assumes "\<exists>j\<le>K. P j"
  shows "\<exists>k\<le>K. P k \<and> (\<forall>j<k. \<not> P j)"
proof -
  from assms obtain j where j: "j \<le> K" "P j" by blast
  let ?k = "LEAST i. P i"
  have "P ?k" using j(2) by (rule LeastI)
  moreover have "?k \<le> K" using Least_le [of P j] j by simp
  moreover have "\<forall>i<?k. \<not> P i" using not_less_Least by blast
  ultimately show ?thesis by blast
qed

lemma catalog_while_timeout_iff:
  "fst (catalog_while env cs c 0 w) \<noteq> None \<longleftrightarrow>
   (\<forall>j\<le>61. c \<notin> set (list_catalog_sources env (catalog_gets w + j)))"
proof
  assume raised: "fst (catalog_while env cs c 0 w) \<noteq> None"
  show "\<forall>j\<le>61. c \<notin> set (list_catalog_sources env (catalog_gets w + j))"
  proof (rule ccontr)
    assume "\<not> (\<forall>j\<le>61. c \<notin> set (list_catalog_sources env (catalog_gets w + j)))"
    then have "\<exists>j\<le>61. c \<in> set (list_catalog_sources env (catalog_gets w + j))" by blast
    from first_hit [of 61 "\<lambda>j. c \<in> set (list_catalog_sources env (catalog_gets w + j))", OF this]
    obtain k where k: "k \<le> 61" "c \<in> set (list_catalog_sources env (catalog_gets w + k))"
      "\<forall>j<k. c \<notin> set (list_catalog_sources env (catalog_gets w + j))" by blast
    have "0 + k \<le> 61" using k(1) by simp
    from catalog_while_hit [OF this k(2) k(3), of cs]
    obtain w' where "catalog_while env cs c 0 w = (None, 0 + k, w')" by blast
    then have "fst (catalog_while env cs c 0 w) = None" by simp
    with raised show False by simp
  qed
next
  assume absent: "\<forall>j\<le>61. c \<notin> set (list_catalog_sources env (catalog_gets w + j))"
  have "(0::nat) + 61 = 61" by simp
  from catalog_while_absent [OF this absent, of cs]
  obtain w' where "catalog_while env cs c 0 w = (Some (TimeoutError (catalog_timeout_msg c)), 61, w')"
    by blast
  then show "fst (catalog_while env cs c 0 w) \<noteq> None" by simp
qed


lemma first_hit_less:
  fixes P :: "nat \<Rightarrow> bool"
  assumes "\<exists>j<K. P j"
  shows "\<exists>k<K. P k \<and> (\<forall>j<k. \<not> P j)"
proof -
  from assms obtain j where j: "j < K" "P j" by blast
  let ?k = "LEAST i. P i"
  have "P ?k" using j(2) by (rule LeastI)
  moreover have "?k < K" using Least_le [of P j] j by simp
  moreover have "\<forall>i<?k. \<not> P i" using not_less_Least by blast
  ultimately show ?thesis by blast
qed

lemma catalog_while_raised:
  assumes "fst (catalog_while env cs c 0 w) = Some e"
  shows "e = TimeoutError (catalog_timeout_msg c) \<and> fst (snd (catalog_while env cs c 0 w)) = 61
         \<and> catalog_gets (snd (snd (catalog_while env cs c 0 w))) = catalog_gets w + 62"
proof -
  from assms have "fst (catalog_while env cs c 0 w) \<noteq> None" by simp
  then have absent: "\<forall>j\<le>61. c \<notin> set (list_catalog_sources env (catalog_gets w + j))"
    by (simp only: catalog_while_timeout_iff)
  have "(0::nat) + 61 = 61" by simp
  from catalog_while_absent [OF this absent, of cs]
  obtain w' where w': "catalog_while env cs c 0 w = (Some (TimeoutError (catalog_timeout_msg c)), 61, w')"
    "catalog_gets w' = catalog_gets w + 61 + 1"
    by blast
  with assms show ?thesis by simp
qed

lemma manifest_while_none_iff:
  "fst (manifest_while env n 0 None w) \<noteq> None \<longleftrightarrow>
   (\<forall>j<181. n \<notin> set (list_package_manifests env (manifest_gets w + j)))"
proof
  assume raised: "fst (manifest_while env n 0 None w) \<noteq> None"
  show "\<forall>j<181. n \<notin> set (list_package_manifests env (manifest_gets w + j))"
  proof (rule ccontr)
    assume "\<not> (\<forall>j<181. n \<notin> set (list_package_manifests env (manifest_gets w + j)))"
    then have "\<exists>j<181. n \<in> set (list_package_manifests env (manifest_gets w + j))" by blast
    from first_hit_less [of 181 "\<lambda>j. n \<in> set (list_package_manifests env (manifest_gets w + j))", OF this]
    obtain k where k: "k < 181" "n \<in> set (list_package_manifests env (manifest_gets w + k))"
      "\<forall>j<k. n \<notin> set (list_package_manifests env (manifest_gets w + j))" by blast
    have *: "(0::nat) \<noteq> 0 \<or> (None :: string list option) = None" by simp
    have "0 + k \<le> 180" using k(1) by simp
    from manifest_while_hit_fetch [OF * this k(2) k(3)]
    obtain w' where "manifest_while env n 0 None w =
        (None, Suc (0 + k), Some (list_package_manifests env (manifest_gets w + k)), w')" by blast
    then have "fst (manifest_while env n 0 None w) = None" by simp
    with raised show False by simp
  qed
next
  assume absent: "\<forall>j<181. n \<notin> set (list_package_manifests env (manifest_gets w + j))"
  have *: "(0::nat) \<noteq> 0 \<or> (None :: string list option) = None" by simp
  have "(0::nat) + 181 = 181" by simp
  from manifest_while_absent_fetch [OF * this absent]
  obtain p' w' where "manifest_while env n 0 None w = (Some (TimeoutError (manifest_timeout_msg n)), 181, p', w')"
    by blast
  then show "fst (manifest_while env n 0 None w) \<noteq> None" by simp
qed

lemma manifest_while_some_iff:
  "fst (manifest_while env n 0 (Some cached) w) \<noteq> None \<longleftrightarrow>
   n \<notin> set cached \<and> (\<forall>j<180. n \<notin> set (list_package_manifests env (manifest_gets w + j)))"
proof (cases "n \<in> set cached")
  case True
  then show ?thesis by (simp add: manifest_while_cached_found)
next
  case False
  let ?w = "sleep RECHECK_INTERVAL w"
  have gets: "manifest_gets ?w = manifest_gets w" by (simp add: sleep_def)
  have step: "manifest_while env n 0 (Some cached) w = manifest_while env n (Suc 0) (Some cached) ?w"
    using False by (rule manifest_while_cached_retry)
  have *: "Suc 0 \<noteq> 0 \<or> Some cached = None" by simp
  show ?thesis
  proof (cases "\<forall>j<180. n \<notin> set (list_package_manifests env (manifest_gets w + j))")
    case True
    then have absent: "\<forall>j<180. n \<notin> set (list_package_manifests env (manifest_gets ?w + j))"
      by (simp only: gets)
    have "Suc 0 + 180 = 181" by simp
    from manifest_while_absent_fetch [OF * this absent]
    obtain p' w' where "manifest_while env n (Suc 0) (Some cached) ?w =
        (Some (TimeoutError (manifest_timeout_msg n)), 181, p', w')" by blast
    then have "fst (manifest_while env n 0 (Some cached) w) \<noteq> None" by (simp add: step)
    with True False show ?thesis by blast
  next
    case nohit: False
    then have "\<exists>j<180. n \<in> set (list_package_manifests env (manifest_gets w + j))" by blast
    from first_hit_less [of 180 "\<lambda>j. n \<in> set (list_package_manifests env (manifest_gets w + j))", OF this]
    obtain k where k: "k < 180" "n \<in> set (list_package_manifests env (manifest_gets w + k))"
      "\<forall>j<k. n \<notin> set (list_package_manifests env (manifest_gets w + j))" by blast
    have le: "Suc 0 + k \<le> 180" using k(1) by simp
    have hit: "n \<in> set (list_package_manifests env (manifest_gets ?w + k))"
      using k(2) by (simp only: gets)
    have rest: "\<forall>j<k. n \<notin> set (list_package_manifests env (manifest_gets ?w + j))"
      using k(3) by (simp only: gets)
    from manifest_while_hit_fetch [OF * le hit rest]
    obtain w' where "manifest_while env n (Suc 0) (Some cached) ?w =
        (None, Suc (Suc 0 + k), Some (list_package_manifests env (manifest_gets ?w + k)), w')" by blast
    then have "fst (manifest_while env n 0 (Some cached) w) = None" by (simp add: step)
    with nohit show ?thesis by blast
  qed
qed


lemma manifest_while_raised:
  assumes "fst (manifest_while env n 0 prev w) = Some e"
  shows "e = TimeoutError (manifest_timeout_msg n) \<and> fst (snd (manifest_while env n 0 prev w)) = 181"
proof (cases prev)
  case None
  from assms have "fst (manifest_while env n 0 None w) \<noteq> None" by (simp add: None)
  with manifest_while_none_iff [of env n w]
  have absent: "\<forall>j<181. n \<notin> set (list_package_manifests env (manifest_gets w + j))"
    by (rule iffD1)
  have *: "(0::nat) \<noteq> 0 \<or> (None :: string list option) = None" by simp
  have "(0::nat) + 181 = 181" by simp
  from manifest_while_absent_fetch [OF * this absent]
  obtain p' w' where "manifest_while env n 0 None w = (Some (TimeoutError (manifest_timeout_msg n)), 181, p', w')"
    by blast
  with assms None show ?thesis by simp
next
  case (Some cached)
  let ?w = "sleep RECHECK_INTERVAL w"
  have gets: "manifest_gets ?w = manifest_gets w" by (simp add: sleep_def)
  from assms have "fst (manifest_while env n 0 (Some cached) w) \<noteq> None" by (simp add: Some)
  with manifest_while_some_iff [of env n cached w]
  have both: "n \<notin> set cached
      \<and> (\<forall>j<180. n \<notin> set (list_package_manifests env (manifest_gets w + j)))"
    by (rule iffD1)
  note miss = both [THEN conjunct1] and absent = both [THEN conjunct2]
  have step: "manifest_while env n 0 (Some cached) w = manifest_while env n (Suc 0) (Some cached) ?w"
    using miss by (rule manifest_while_cached_retry)
  have *: "Suc 0 \<noteq> 0 \<or> Some cached = None" by simp
  from absent have absent': "\<forall>j<180. n \<notin> set (list_package_manifests env (manifest_gets ?w + j))"
    by (simp only: gets)
  have "Suc 0 + 180 = 181" by simp
  from manifest_while_absent_fetch [OF * this absent']
  obtain p' w' where "manifest_while env n (Suc 0) (Some cached) ?w =
      (Some (TimeoutError (manifest_timeout_msg n)), 181, p', w')" by blast
  with assms Some step show ?thesis by simp
qed

lemma manifest_while_timeout_iff:
  "fst (manifest_while env n 0 prev w) \<noteq> None \<longleftrightarrow>
   (\<forall>j\<le>180. n \<notin> set (examined prev (\<lambda>i. list_package_manifests env (manifest_gets w + i)) j))"
proof (cases prev)
  case None
  let ?P = "\<lambda>i. n \<notin> set (list_package_manifests env (manifest_gets w + i))"
  have ex: "examined None (\<lambda>i. list_package_manifests env (manifest_gets w + i)) j =
      list_package_manifests env (manifest_gets w + j)" for j
    by (simp add: examined_def)
  have le: "j \<le> 180 \<longleftrightarrow> j < 181" for j :: nat by arith
  have eq: "(\<forall>j\<le>180. n \<notin> set (examined None (\<lambda>i. list_package_manifests env (manifest_gets w + i)) j))
      \<longleftrightarrow> (\<forall>j<181. ?P j)"
    unfolding ex le ..
  show ?thesis unfolding None by (rule trans [OF manifest_while_none_iff eq [symmetric]])
next
  case (Some cached)
  let ?P = "\<lambda>i. n \<notin> set (list_package_manifests env (manifest_gets w + i))"
  have ex: "examined (Some cached) (\<lambda>i. list_package_manifests env (manifest_gets w + i)) j =
      (if j = 0 then cached else list_package_manifests env (manifest_gets w + (j - 1)))" for j
    by (simp add: examined_def)
  have eq: "(\<forall>j\<le>180. n \<notin> set (examined (Some cached) (\<lambda>i. list_package_manifests env (manifest_gets w + i)) j))
        \<longleftrightarrow> n \<notin> set cached \<and> (\<forall>j<180. ?P j)" (is "?L \<longleftrightarrow> ?R")
  proof
    assume L: ?L
    from L [rule_format, of 0] have "n \<notin> set cached" by (simp add: ex)
    moreover have "?P j" if "j < 180" for j
    proof -
      from that have "Suc j \<le> 180" by simp
      from L [rule_format, OF this] show ?thesis by (simp add: ex)
    qed
    ultimately show ?R by blast
  next
    assume R: ?R
    show ?L
    proof (intro allI impI)
      fix j :: nat assume j: "j \<le> 180"
      show "n \<notin> set (examined (Some cached) (\<lambda>i. list_package_manifests env (manifest_gets w + i)) j)"
      proof (cases j)
        case 0
        with R show ?thesis by (simp add: ex)
      next
        case (Suc i)
        with j have "i < 180" by simp
        with R have "?P i" by blast
        with Suc show ?thesis by (simp add: ex)
      qed
    qed
  qed
  show ?thesis unfolding Some by (rule trans [OF manifest_while_some_iff eq [symmetric]])
qed

lemma pod_while_cached_error:
  "pods_for t cached = Inl e \<Longrightarrow>
   pod_while env ns t 0 (Some cached) w = (Some e, 0, Some cached, w)"
  by (simp add: pod_while.simps [of env ns t 0 "Some cached" w])

lemma pod_while_cached_found:
  "pods_for t cached = Inr True \<Longrightarrow>
   pod_while env ns t 0 (Some cached) w =
     (None, Suc 0, Some cached, logger_info ''{} pod running'' [Str t] w)"
  by (simp add: pod_while.simps [of env ns t 0 "Some cached" w] RECHECK_INTERVAL_def)

lemma pod_while_cached_retry:
  "pods_for t cached = Inr False \<Longrightarrow>
   pod_while env ns t 0 (Some cached) w =
     pod_while env ns t (Suc 0) (Some cached) (sleep RECHECK_INTERVAL w)"
  by (simp add: pod_while.simps [of env ns t 0 "Some cached" w] RECHECK_INTERVAL_def)

lemma pod_while_fetch_error:
  "tries \<noteq> 0 \<or> prev = None \<Longrightarrow> pods_for t (list_pods env (length (pod_gets w)) ns) = Inl e \<Longrightarrow>
   pod_while env ns t tries prev w =
     (Some e, tries, Some (list_pods env (length (pod_gets w)) ns), w\<lparr>pod_gets := pod_gets w @ [ns]\<rparr>)"
  by (auto simp add: pod_while.simps [of env ns t tries prev w] Pod_get_def)

lemma pod_while_fetch_found:
  "tries \<noteq> 0 \<or> prev = None \<Longrightarrow> \<not> tries > RECHECK_INTERVAL div RECHECK_INTERVAL \<Longrightarrow>
   pods_for t (list_pods env (length (pod_gets w)) ns) = Inr True \<Longrightarrow>
   pod_while env ns t tries prev w =
     (None, Suc tries, Some (list_pods env (length (pod_gets w)) ns),
      logger_info ''{} pod running'' [Str t] (w\<lparr>pod_gets := pod_gets w @ [ns]\<rparr>))"
  by (auto simp add: pod_while.simps [of env ns t tries prev w] Pod_get_def)

lemma pod_while_fetch_retry:
  "tries \<noteq> 0 \<or> prev = None \<Longrightarrow> \<not> tries > RECHECK_INTERVAL div RECHECK_INTERVAL \<Longrightarrow>
   pods_for t (list_pods env (length (pod_gets w)) ns) = Inr False \<Longrightarrow>
   pod_while env ns t tries prev w =
     pod_while env ns t (Suc tries) (Some (list_pods env (length (pod_gets w)) ns))
       (sleep RECHECK_INTERVAL (w\<lparr>pod_gets := pod_gets w @ [ns]\<rparr>))"
  by (auto simp add: pod_while.simps [of env ns t tries prev w] Pod_get_def)

lemma pod_while_last:
  "tries > RECHECK_INTERVAL div RECHECK_INTERVAL \<Longrightarrow>
   pods_for t (list_pods env (length (pod_gets w)) ns) = Inr found \<Longrightarrow>
   pod_while env ns t tries prev w =
     (Some (TimeoutError (pod_timeout_msg t)), tries, Some (list_pods env (length (pod_gets w)) ns),
      logger_error ''Timeout waiting for {} pod'' [Str t]
        (if found then logger_info ''{} pod running'' [Str t] (w\<lparr>pod_gets := pod_gets w @ [ns]\<rparr>)
         else sleep RECHECK_INTERVAL (w\<lparr>pod_gets := pod_gets w @ [ns]\<rparr>)))"
  by (auto simp add: pod_while.simps [of env ns t tries prev w] Pod_get_def RECHECK_INTERVAL_def)

text \<open>From attempt 1 on, the loop looks at fresh listings only.\<close>

lemma pod_while_from_1:
  "pod_while env ns t (Suc 0) prev w =
     (case pods_for t (list_pods env (length (pod_gets w)) ns) of
        Inl e \<Rightarrow> (Some e, Suc 0, Some (list_pods env (length (pod_gets w)) ns), w\<lparr>pod_gets := pod_gets w @ [ns]\<rparr>)
      | Inr True \<Rightarrow> (None, 2, Some (list_pods env (length (pod_gets w)) ns),
                      logger_info ''{} pod running'' [Str t] (w\<lparr>pod_gets := pod_gets w @ [ns]\<rparr>))
      | Inr False \<Rightarrow>
          (case pods_for t (list_pods env (Suc (length (pod_gets w))) ns) of
             Inl e \<Rightarrow> (Some e, 2, Some (list_pods env (Suc (length (pod_gets w))) ns),
                        sleep RECHECK_INTERVAL (w\<lparr>pod_gets := pod_gets w @ [ns]\<rparr>)\<lparr>pod_gets := pod_gets w @ [ns, ns]\<rparr>)
           | Inr found \<Rightarrow>
               (Some (TimeoutError (pod_timeout_msg t)), 2, Some (list_pods env (Suc (length (pod_gets w))) ns),
                logger_error ''Timeout waiting for {} pod'' [Str t]
                  (if found
                   then logger_info ''{} pod running'' [Str t]
                          (sleep RECHECK_INTERVAL (w\<lparr>pod_gets := pod_gets w @ [ns]\<rparr>)\<lparr>pod_gets := pod_gets w @ [ns, ns]\<rparr>)
                   else sleep RECHECK_INTERVAL
                          (sleep RECHECK_INTERVAL (w\<lparr>pod_gets := pod_gets w @ [ns]\<rparr>)\<lparr>pod_gets := pod_gets w @ [ns, ns]\<rparr>)))))"
proof (cases "pods_for t (list_pods env (length (pod_gets w)) ns)")
  case (Inl e)
  then show ?thesis by (simp add: pod_while_fetch_error)
next
  case (Inr found)
  show ?thesis
  proof (cases found)
    case True
    with Inr show ?thesis
      by (simp add: pod_while_fetch_found RECHECK_INTERVAL_def numeral_2_eq_2)
  next
    case False
    let ?w = "sleep RECHECK_INTERVAL (w\<lparr>pod_gets := pod_gets w @ [ns]\<rparr>)"
    have len: "length (pod_gets ?w) = Suc (length (pod_gets w))" by (simp add: sleep_def)
    have step: "pod_while env ns t (Suc 0) prev w =
        pod_while env ns t (Suc (Suc 0)) (Some (list_pods env (length (pod_gets w)) ns)) ?w"
      using Inr False by (simp add: pod_while_fetch_retry RECHECK_INTERVAL_def)
    show ?thesis
    proof (cases "pods_for t (list_pods env (Suc (length (pod_gets w))) ns)")
      case (Inl e)
      with Inr False show ?thesis
        by (simp add: step pod_while_fetch_error len numeral_2_eq_2) (simp add: sleep_def)
    next
      case second: (Inr found2)
      have "Suc (Suc 0) > RECHECK_INTERVAL div RECHECK_INTERVAL" by (simp add: RECHECK_INTERVAL_def)
      from pod_while_last [OF this, of t env ?w ns found2] second Inr False show ?thesis
        by (simp add: step len numeral_2_eq_2) (simp add: sleep_def)
    qed
  qed
qed

lemma count_started_error: "count_started cs = Inl e \<Longrightarrow> e = KeyError ''started''"
  by (induction cs arbitrary: e) (auto simp: getitem_def split: option.splits sum.splits)

lemma num_running_containers_error:
  "num_running_containers p = Inl e \<Longrightarrow> e = KeyError ''containerStatuses'' \<or> e = KeyError ''started''"
  by (auto simp: num_running_containers_def getitem_def count_started_error split: option.splits)

lemma pods_for_error: "pods_for t ps = Inl e \<Longrightarrow> \<exists>k. e = KeyError k"
proof (induction ps)
  case Nil
  then show ?case by simp
next
  case (Cons p ps)
  show ?case
  proof (cases "num_running_containers p")
    case (Inl e')
    with Cons.prems have "e = e'" by simp
    with Inl num_running_containers_error show ?thesis by blast
  next
    case (Inr n)
    with Cons show ?thesis by (simp split: if_splits)
  qed
qed

text \<open>What the loop returns and the final \<open>tries\<close>, from the three scans it can make.\<close>

lemma pod_while_outcome:
  fixes env ns t prev w
  defines "scan \<equiv> \<lambda>j. pods_for t (examined prev (\<lambda>i. list_pods env (length (pod_gets w) + i) ns) j)"
  shows "(fst (pod_while env ns t 0 prev w), fst (snd (pod_while env ns t 0 prev w))) =
     (case scan 0 of
        Inl e \<Rightarrow> (Some e, 0)
      | Inr True \<Rightarrow> (None, 1)
      | Inr False \<Rightarrow>
          (case scan 1 of
             Inl e \<Rightarrow> (Some e, 1)
           | Inr True \<Rightarrow> (None, 2)
           | Inr False \<Rightarrow>
               (case scan 2 of
                  Inl e \<Rightarrow> (Some e, 2)
                | Inr found \<Rightarrow> (Some (TimeoutError (pod_timeout_msg t)), 2))))"
proof (cases prev)
  case None
  have scan: "scan j = pods_for t (list_pods env (length (pod_gets w) + j) ns)" for j
    by (simp add: scan_def None examined_def)
  have *: "(0::nat) \<noteq> 0 \<or> prev = None" by (simp add: None)
  have small: "\<not> (0::nat) > RECHECK_INTERVAL div RECHECK_INTERVAL" by simp
  show ?thesis
  proof (cases "scan 0")
    case (Inl e)
    with pod_while_fetch_error [OF *, of t env w ns e] show ?thesis by (simp add: scan)
  next
    case (Inr found)
    show ?thesis
    proof (cases found)
      case True
      with Inr pod_while_fetch_found [OF * small, of t env w ns] show ?thesis by (simp add: scan)
    next
      case False
      let ?w = "sleep RECHECK_INTERVAL (w\<lparr>pod_gets := pod_gets w @ [ns]\<rparr>)"
      have len: "length (pod_gets ?w) = Suc (length (pod_gets w))" by (simp add: sleep_def)
      from False Inr pod_while_fetch_retry [OF * small, of t env w ns]
      have step: "pod_while env ns t 0 prev w =
          pod_while env ns t (Suc 0) (Some (list_pods env (length (pod_gets w)) ns)) ?w"
        by (simp add: scan)
      show ?thesis
        unfolding step pod_while_from_1 len
        using Inr False
        by (simp add: scan numeral_2_eq_2 split: sum.splits bool.splits)
    qed
  qed
next
  case (Some cached)
  have scan0: "scan 0 = pods_for t cached" by (simp add: scan_def Some examined_def)
  have scan: "scan (Suc j) = pods_for t (list_pods env (length (pod_gets w) + j) ns)" for j
    by (simp add: scan_def Some examined_def)
  have two: "scan (Suc (Suc 0)) = pods_for t (list_pods env (Suc (length (pod_gets w))) ns)"
    using scan [of "Suc 0"] by simp
  have one: "scan (Suc 0) = pods_for t (list_pods env (length (pod_gets w)) ns)"
    using scan [of 0] by simp
  show ?thesis
  proof (cases "scan 0")
    case (Inl e)
    with pod_while_cached_error [of t cached e env ns w] show ?thesis by (simp add: scan0 Some)
  next
    case (Inr found)
    show ?thesis
    proof (cases found)
      case True
      with Inr pod_while_cached_found [of t cached env ns w] show ?thesis by (simp add: scan0 Some)
    next
      case False
      let ?w = "sleep RECHECK_INTERVAL w"
      have len: "length (pod_gets ?w) = length (pod_gets w)" by (simp add: sleep_def)
      from False Inr pod_while_cached_retry [of t cached env ns w]
      have step: "pod_while env ns t 0 prev w = pod_while env ns t (Suc 0) (Some cached) ?w"
        by (simp add: scan0 Some)
      show ?thesis
        unfolding step pod_while_from_1 len
        using Inr False
        by (simp add: one two numeral_2_eq_2 split: sum.splits bool.splits)
    qed
  qed
qed

lemma pod_while_timeout_tries:
  assumes "fst (pod_while env ns t 0 prev w) = Some (TimeoutError m)"
  shows "m = pod_timeout_msg t \<and> fst (snd (pod_while env ns t 0 prev w)) = 2"
proof -
  let ?scan = "\<lambda>j. pods_for t (examined prev (\<lambda>i. list_pods env (length (pod_gets w) + i) ns) j)"
  have key: "e \<noteq> TimeoutError m" if "?scan j = Inl e" for j e
    using pods_for_error [OF that] by auto
  note out = pod_while_outcome [of env ns t prev w]
  show ?thesis
  proof (cases "?scan 0")
    case (Inl e)
    with out assms key [of 0 e] show ?thesis by simp
  next
    case s0: (Inr f0)
    show ?thesis
    proof (cases f0)
      case True
      with out assms s0 show ?thesis by simp
    next
      case f0: False
      show ?thesis
      proof (cases "?scan 1")
        case (Inl e)
        with out assms s0 f0 key [of 1 e] show ?thesis by simp
      next
        case s1: (Inr f1)
        show ?thesis
        proof (cases f1)
          case True
          with out assms s0 f0 s1 show ?thesis by simp
        next
          case f1: False
          show ?thesis
          proof (cases "?scan 2")
            case (Inl e)
            with out assms s0 f0 s1 f1 key [of 2 e] show ?thesis by simp
          next
            case (Inr f2)
            with out assms s0 f0 s1 f1 show ?thesis by simp
          qed
        qed
      qed
    qed
  qed
qed

lemma pod_while_timeout_iff:
  "fst (pod_while env ns t 0 prev w) = Some (TimeoutError (pod_timeout_msg t)) \<longleftrightarrow>
     (\<forall>j\<le>1. pods_for t (examined prev (\<lambda>i. list_pods env (length (pod_gets w) + i) ns) j) = Inr False)
     \<and> (\<exists>found. pods_for t (examined prev (\<lambda>i. list_pods env (length (pod_gets w) + i) ns) 2) = Inr found)"
proof -
  let ?scan = "\<lambda>j. pods_for t (examined prev (\<lambda>i. list_pods env (length (pod_gets w) + i) ns) j)"
  have key: "e \<noteq> TimeoutError m" if "?scan j = Inl e" for j e m
    using pods_for_error [OF that] by auto
  have all: "(\<forall>j\<le>1. ?scan j = Inr False) \<longleftrightarrow> ?scan 0 = Inr False \<and> ?scan 1 = Inr False"
    by (auto simp: le_Suc_eq)
  note out = pod_while_outcome [of env ns t prev w]
  have "fst (pod_while env ns t 0 prev w) = Some (TimeoutError (pod_timeout_msg t)) \<longleftrightarrow>
     (?scan 0 = Inr False \<and> ?scan 1 = Inr False) \<and> (\<exists>found. ?scan 2 = Inr found)"
    (is ?unfolded)
  proof (cases "?scan 0")
    case (Inl e)
    with out key [of 0 e] show ?unfolded by simp
  next
    case s0: (Inr f0)
    show ?unfolded
    proof (cases f0)
      case True
      with out s0 show ?unfolded by simp
    next
      case f0: False
      show ?unfolded
      proof (cases "?scan 1")
        case (Inl e)
        with out s0 f0 key [of 1 e] show ?unfolded by simp
      next
        case s1: (Inr f1)
        show ?unfolded
        proof (cases f1)
          case True
          with out s0 f0 s1 show ?unfolded by simp
        next
          case f1: False
          show ?unfolded
          proof (cases "?scan 2")
            case (Inl e)
            with out s0 f0 s1 f1 key [of 2 e] show ?unfolded by simp
          next
            case (Inr f2)
            with out s0 f0 s1 f1 show ?unfolded by simp
          qed
        qed
      qed
    qed
  qed
  then show ?thesis unfolding all .
qed

lemma pod_while_never_ready:
  assumes "\<forall>j\<le>2. pods_for t (examined prev (\<lambda>i. list_pods env (length (pod_gets w) + i) ns) j) = Inr False"
  shows "\<exists>p' w'. pod_while env ns t 0 prev w = (Some (TimeoutError (pod_timeout_msg t)), 2, p', w')
           \<and> slept w' = slept w + 3 * RECHECK_INTERVAL
           \<and> pod_gets w' = pod_gets w @ replicate (case prev of None \<Rightarrow> 3 | Some cached \<Rightarrow> 2) ns"
proof (cases prev)
  case None
  let ?f = "\<lambda>i. list_pods env (length (pod_gets w) + i) ns"
  have s: "pods_for t (?f 0) = Inr False" "pods_for t (?f 1) = Inr False"
    "pods_for t (?f 2) = Inr False"
    using assms [rule_format, of 0] assms [rule_format, of 1] assms [rule_format, of 2]
    by (simp_all add: None examined_def)
  let ?w = "sleep RECHECK_INTERVAL (w\<lparr>pod_gets := pod_gets w @ [ns]\<rparr>)"
  have len: "length (pod_gets ?w) = Suc (length (pod_gets w))" by (simp add: sleep_def)
  have *: "(0::nat) \<noteq> 0 \<or> prev = None" by (simp add: None)
  have small: "\<not> (0::nat) > RECHECK_INTERVAL div RECHECK_INTERVAL" by simp
  from s(1) have s0: "pods_for t (list_pods env (length (pod_gets w)) ns) = Inr False" by simp
  have step: "pod_while env ns t 0 prev w =
      pod_while env ns t (Suc 0) (Some (list_pods env (length (pod_gets w)) ns)) ?w"
    by (rule pod_while_fetch_retry [OF * small s0])
  from s(2) have s1: "pods_for t (list_pods env (length (pod_gets ?w)) ns) = Inr False"
    by (simp add: len)
  from s(3) have s2: "pods_for t (list_pods env (Suc (length (pod_gets ?w))) ns) = Inr False"
    by (simp add: len numeral_2_eq_2)
  show ?thesis
    unfolding step pod_while_from_1 s1 s2
    by (simp add: None sleep_def logger_error_def numeral_3_eq_3)
next
  case (Some cached)
  let ?f = "\<lambda>i. list_pods env (length (pod_gets w) + i) ns"
  have s: "pods_for t cached = Inr False" "pods_for t (?f 0) = Inr False"
    "pods_for t (?f 1) = Inr False"
    using assms [rule_format, of 0] assms [rule_format, of 1] assms [rule_format, of 2]
    by (simp_all add: Some examined_def)
  let ?w = "sleep RECHECK_INTERVAL w"
  have len: "length (pod_gets ?w) = length (pod_gets w)" by (simp add: sleep_def)
  have step: "pod_while env ns t 0 prev w = pod_while env ns t (Suc 0) (Some cached) ?w"
    unfolding Some by (rule pod_while_cached_retry [OF s(1)])
  from s(2) have s1: "pods_for t (list_pods env (length (pod_gets ?w)) ns) = Inr False"
    by (simp add: len)
  from s(3) have s2: "pods_for t (list_pods env (Suc (length (pod_gets ?w))) ns) = Inr False"
    by (simp add: len)
  show ?thesis
    unfolding step pod_while_from_1 s1 s2
    by (simp add: Some sleep_def logger_error_def numeral_2_eq_2)
qed



lemma verify_operator_running_single:
  assumes "correspondingPods op = [t]"
  shows "fst (verify_operator_running env [op] w) =
           fst (pod_while env (namespace op) t 0 None (header ''Verifying Operator Pods'' w))"
proof -
  obtain e tries p w' where r:
    "pod_while env (namespace op) t 0 None (header ''Verifying Operator Pods'' w) = (e, tries, p, w')"
    by (cases "pod_while env (namespace op) t 0 None (header ''Verifying Operator Pods'' w)") auto
  show ?thesis
    by (cases e) (simp_all add: verify_operator_running_def assms r)
qed



lemma pod_while_never_ready_fst:
  assumes "\<forall>j\<le>2. pods_for t (examined prev (\<lambda>i. list_pods env (length (pod_gets w) + i) ns) j) = Inr False"
  shows "fst (pod_while env ns t 0 prev w) = Some (TimeoutError (pod_timeout_msg t))"
  using pod_while_never_ready [OF assms] by auto




lemma str_split_not_Nil: "str_split sep s \<noteq> []"
  by (induction sep s rule: str_split.induct) (auto split: list.splits)

lemma str_join_Cons: "ps \<noteq> [] \<Longrightarrow> str_join sep (p # ps) = p @ sep @ str_join sep ps"
  by (cases ps) auto

lemma str_join_Cons_hd: "str_join sep ((c # p) # ps) = c # str_join sep (p # ps)"
  by (cases ps) auto

lemma str_join_split:
  "sep \<noteq> [] \<Longrightarrow> str_join sep (str_split sep s) = s"
proof (induction sep s rule: str_split.induct)
  case (1 sep)
  show ?case by simp
next
  case (2 sep c cs)
  show ?case
  proof (cases "prefix sep (c # cs)")
    case True
    with 2 have "str_join sep (str_split sep (drop (length sep) (c # cs))) = drop (length sep) (c # cs)"
      by simp
    with True 2(3) show ?thesis
      by (simp add: str_join_Cons str_split_not_Nil del: drop.simps str_join.simps)
         (metis append_take_drop_id prefix_def append_eq_conv_conj)
  next
    case False
    obtain p ps where s: "str_split sep cs = p # ps"
      using str_split_not_Nil [of sep cs] by (cases "str_split sep cs") auto
    with False 2 show ?thesis
      by (simp add: str_join_Cons_hd del: str_join.simps)
  qed
qed

lemma replace_scan_join:
  "sep \<noteq> [] \<Longrightarrow> replace_scan sep new s = str_join new (str_split sep s)"
proof (induction sep s rule: str_split.induct)
  case (1 sep)
  show ?case by simp
next
  case (2 sep c cs)
  show ?case
  proof (cases "prefix sep (c # cs)")
    case True
    with 2 show ?thesis
      by (simp add: str_join_Cons str_split_not_Nil del: drop.simps str_join.simps)
  next
    case False
    obtain p ps where s: "str_split sep cs = p # ps"
      using str_split_not_Nil [of sep cs] by (cases "str_split sep cs") auto
    with False 2 show ?thesis
      by (simp add: str_join_Cons_hd del: str_join.simps)
  qed
qed

lemma str_split_hd_prefix: "str_split sep s = p # ps \<Longrightarrow> prefix p s"
proof (induction sep s arbitrary: p ps rule: str_split.induct)
  case (1 sep)
  then show ?case by simp
next
  case (2 sep c cs)
  show ?case
  proof (cases "sep \<noteq> [] \<and> prefix sep (c # cs)")
    case True
    with 2(3) show ?thesis by auto
  next
    case False
    obtain q qs where s: "str_split sep cs = q # qs"
      using str_split_not_Nil [of sep cs] by (cases "str_split sep cs") auto
    from 2(2) [OF False s] have "prefix q cs" .
    with False s 2(3) show ?thesis by auto
  qed
qed

lemma str_split_parts:
  "sep \<noteq> [] \<Longrightarrow> q \<in> set (str_split sep s) \<Longrightarrow> \<not> sublist sep q"
proof (induction sep s arbitrary: q rule: str_split.induct)
  case (1 sep)
  then show ?case by simp
next
  case (2 sep c cs)
  show ?case
  proof (cases "prefix sep (c # cs)")
    case True
    with 2(1) [of q] 2(3,4) show ?thesis by auto
  next
    case False
    obtain p ps where s: "str_split sep cs = p # ps"
      using str_split_not_Nil [of sep cs] by (cases "str_split sep cs") auto
    from False 2(3) have n: "\<not> (sep \<noteq> [] \<and> prefix sep (c # cs))" by simp
    from s False 2(4) have q: "q = c # p \<or> q \<in> set ps" by auto
    show ?thesis
    proof (cases "q = c # p")
      case True
      have "prefix (c # p) (c # cs)" using str_split_hd_prefix [OF s] by simp
      then have 1: "\<not> prefix sep (c # p)" using False by (meson prefix_order.trans)
      have 2: "\<not> sublist sep p" using 2(2) [OF n 2(3), of p] s by simp
      from 1 2 show ?thesis unfolding True by (simp add: sublist_Cons_right)
    next
      case False
      with q have "q \<in> set (str_split sep cs)" using s by simp
      from 2(2) [OF n 2(3) this] show ?thesis .
    qed
  qed
qed

lemma PLACEHOLDER_not_Nil: "PLACEHOLDER \<noteq> []"
  by (simp add: PLACEHOLDER_def)

lemma catalog_while_frame:
  "installs (snd (snd (catalog_while env cs c tries w))) = installs w
   \<and> created (snd (snd (catalog_while env cs c tries w))) = created w
   \<and> pod_gets (snd (snd (catalog_while env cs c tries w))) = pod_gets w
   \<and> manifest_gets (snd (snd (catalog_while env cs c tries w))) = manifest_gets w"
proof (induction env cs c tries w rule: catalog_while.induct)
  case (1 env cs c tries w)
  let ?w1 = "w\<lparr>catalog_gets := Suc (catalog_gets w)\<rparr>"
  show ?case
  proof (cases "c \<in> set (list_catalog_sources env (catalog_gets w))")
    case True
    then show ?thesis by (simp add: catalog_while_found logger_info_def)
  next
    case False
    show ?thesis
    proof (cases "tries > 300 div RECHECK_INTERVAL")
      case True
      with False show ?thesis by (simp add: catalog_while_timeout logger_error_def sleep_def)
    next
      case small: False
      from 1 [of "(list_catalog_sources env (catalog_gets w), ?w1)"
          "list_catalog_sources env (catalog_gets w)" ?w1 "sleep RECHECK_INTERVAL ?w1"]
        False small
      show ?thesis
        unfolding catalog_while_retry [OF False small]
        by (simp add: CatalogSource_get_def sleep_def)
    qed
  qed
qed

lemma catalog_for_frame:
  "installs (snd (catalog_for env cs srcs w)) = installs w
   \<and> created (snd (catalog_for env cs srcs w)) = created w
   \<and> pod_gets (snd (catalog_for env cs srcs w)) = pod_gets w
   \<and> manifest_gets (snd (catalog_for env cs srcs w)) = manifest_gets w"
proof (induction srcs arbitrary: w)
  case Nil
  show ?case by simp
next
  case (Cons c srcs)
  obtain e tries w1 where r: "catalog_while env cs c 0 w = (e, tries, w1)"
    by (cases "catalog_while env cs c 0 w") auto
  from catalog_while_frame [of env cs c 0 w] r
  have f: "installs w1 = installs w \<and> created w1 = created w \<and> pod_gets w1 = pod_gets w
      \<and> manifest_gets w1 = manifest_gets w"
    by simp
  show ?case
  proof (cases e)
    case None
    with r f Cons [of w1] show ?thesis by simp
  next
    case (Some err)
    with r f show ?thesis by simp
  qed
qed

lemma wait_for_catalog_sources_frame:
  "installs (snd (wait_for_catalog_sources iter env ops w)) = installs w
   \<and> created (snd (wait_for_catalog_sources iter env ops w)) = created w
   \<and> pod_gets (snd (wait_for_catalog_sources iter env ops w)) = pod_gets w
   \<and> manifest_gets (snd (wait_for_catalog_sources iter env ops w)) = manifest_gets w"
  using catalog_for_frame [of env "iter (map catalogSource ops)" "iter (map catalogSource ops)"
      "header ''Waiting for Catalog Sources'' w"]
  by (simp add: wait_for_catalog_sources_def header_def logger_info_def Let_def)

lemma manifest_while_frame:
  "installs (snd (snd (snd (manifest_while env n tries prev w)))) = installs w
   \<and> created (snd (snd (snd (manifest_while env n tries prev w)))) = created w
   \<and> pod_gets (snd (snd (snd (manifest_while env n tries prev w)))) = pod_gets w"
proof (induction env n tries prev w rule: manifest_while.induct)
  case (1 env n tries prev w)
  show ?case
  proof (cases "tries > 900 div RECHECK_INTERVAL")
    case True
    then show ?thesis
      by (simp add: manifest_while.simps [of env n tries prev w] PackageManifest_get_def Let_def
          logger_error_def logger_info_def sleep_def RECHECK_INTERVAL_def)
  next
    case small: False
    show ?thesis
    proof (cases "tries = 0 \<and> prev \<noteq> None")
      case True
      then obtain cached where p: "prev = Some cached" and z: "tries = 0" by auto
      show ?thesis
      proof (cases "n \<in> set cached")
        case True
        then show ?thesis unfolding p z by (simp add: manifest_while_cached_found logger_info_def)
      next
        case False
        from 1 [of "(cached, prev, w)" cached "(prev, w)" prev w False w "sleep RECHECK_INTERVAL w"]
          False
        show ?thesis
          unfolding p z manifest_while_cached_retry [OF False]
          by (simp add: RECHECK_INTERVAL_def sleep_def)
      qed
    next
      case False
      then have f: "tries \<noteq> 0 \<or> prev = None" by auto
      let ?l = "list_package_manifests env (manifest_gets w)"
      let ?w = "w\<lparr>manifest_gets := Suc (manifest_gets w)\<rparr>"
      have sel: "(if tries = 0 then prev else None) = None" using f by auto
      show ?thesis
      proof (cases "n \<in> set ?l")
        case True
        from manifest_while_fetch_found [OF f small True] show ?thesis
          by (simp add: logger_info_def)
      next
        case nf: False
        from 1 [of "(?l, Some ?l, ?w)" ?l "(Some ?l, ?w)" "Some ?l" ?w False ?w "sleep RECHECK_INTERVAL ?w"]
        have "installs (snd (snd (snd (manifest_while env n (tries + 1) (Some ?l) (sleep RECHECK_INTERVAL ?w))))) = installs w
          \<and> created (snd (snd (snd (manifest_while env n (tries + 1) (Some ?l) (sleep RECHECK_INTERVAL ?w))))) = created w
          \<and> pod_gets (snd (snd (snd (manifest_while env n (tries + 1) (Some ?l) (sleep RECHECK_INTERVAL ?w))))) = pod_gets w"
          using sel nf small by (simp add: PackageManifest_get_def sleep_def)
        then show ?thesis
          unfolding manifest_while_fetch_retry [OF f small nf] by simp
      qed
    qed
  qed
qed

lemma manifest_for_frame:
  "installs (snd (manifest_for env ops prev w)) = installs w
   \<and> created (snd (manifest_for env ops prev w)) = created w
   \<and> pod_gets (snd (manifest_for env ops prev w)) = pod_gets w"
proof (induction ops arbitrary: prev w)
  case Nil
  show ?case by simp
next
  case (Cons op ops)
  obtain e tries p w1 where r: "manifest_while env (name op) 0 prev w = (e, tries, p, w1)"
    by (cases "manifest_while env (name op) 0 prev w") auto
  from manifest_while_frame [of env "name op" 0 prev w] r
  have f: "installs w1 = installs w \<and> created w1 = created w \<and> pod_gets w1 = pod_gets w"
    by simp
  show ?case
  proof (cases e)
    case None
    with r f Cons [of p w1] show ?thesis by simp
  next
    case (Some err)
    with r f show ?thesis by simp
  qed
qed

lemma wait_for_package_manifests_frame:
  "installs (snd (wait_for_package_manifests env ops w)) = installs w
   \<and> created (snd (wait_for_package_manifests env ops w)) = created w
   \<and> pod_gets (snd (wait_for_package_manifests env ops w)) = pod_gets w"
  using manifest_for_frame [of env ops None "header ''Waiting for Package Manifests'' w"]
  by (simp add: wait_for_package_manifests_def header_def logger_info_def)


lemma install_for_frame:
  "created (snd (install_for env ops w)) = created w
   \<and> pod_gets (snd (install_for env ops w)) = pod_gets w
   \<and> (fst (install_for env ops w) = None \<longrightarrow>
        installs (snd (install_for env ops w)) = installs w @ map install_request ops)"
proof (induction ops arbitrary: w)
  case Nil
  show ?case by simp
next
  case (Cons op ops)
  let ?w1 = "w\<lparr>installs := installs w @ [install_request op]\<rparr>"
  show ?case
  proof (cases "install_operator_result env (length (installs w)) (install_request op)")
    case None
    with Cons [of ?w1] show ?thesis by (simp add: Let_def)
  next
    case (Some e)
    then show ?thesis by (simp add: Let_def)
  qed
qed

lemma install_operators_frame:
  "created (snd (install_operators env ops w)) = created w
   \<and> pod_gets (snd (install_operators env ops w)) = pod_gets w
   \<and> (fst (install_operators env ops w) = None \<longrightarrow>
        installs (snd (install_operators env ops w)) = installs w @ map install_request ops)"
  using install_for_frame [of env ops "header ''Installing Operators'' w"]
  by (simp add: install_operators_def header_def logger_info_def)

lemma pod_while_frame:
  "installs (snd (snd (snd (pod_while env ns t tries prev w)))) = installs w
   \<and> created (snd (snd (snd (pod_while env ns t tries prev w)))) = created w"
proof (induction env ns t tries prev w rule: pod_while.induct)
  case (1 env ns t tries prev w)
  show ?case
  proof (cases "tries = 0 \<and> prev \<noteq> None")
    case True
    then obtain cached where p: "prev = Some cached" and z: "tries = 0" by auto
    show ?thesis
    proof (cases "pods_for t cached")
      case (Inl e)
      then show ?thesis unfolding p z by (simp add: pod_while_cached_error)
    next
      case (Inr found)
      show ?thesis
      proof (cases found)
        case True
        with Inr show ?thesis unfolding p z by (simp add: pod_while_cached_found logger_info_def)
      next
        case False
        with Inr have r: "pods_for t cached = Inr False" by simp
        from 1 [of "(cached, prev, w)" cached "(prev, w)" prev w False w "sleep RECHECK_INTERVAL w"] r
        show ?thesis
          unfolding p z pod_while_cached_retry [OF r]
          by (simp add: RECHECK_INTERVAL_def sleep_def)
      qed
    qed
  next
    case False
    then have f: "tries \<noteq> 0 \<or> prev = None" by auto
    let ?l = "list_pods env (length (pod_gets w)) ns"
    let ?w = "w\<lparr>pod_gets := pod_gets w @ [ns]\<rparr>"
    show ?thesis
    proof (cases "pods_for t ?l")
      case (Inl e)
      with pod_while_fetch_error [OF f this] show ?thesis by simp
    next
      case (Inr found)
      show ?thesis
      proof (cases "tries > RECHECK_INTERVAL div RECHECK_INTERVAL")
        case True
        from pod_while_last [OF True Inr] show ?thesis
          by (simp add: logger_error_def logger_info_def sleep_def)
      next
        case small: False
        show ?thesis
        proof (cases found)
          case True
          with Inr pod_while_fetch_found [OF f small] show ?thesis by (simp add: logger_info_def)
        next
          case nf: False
          with Inr have r: "pods_for t ?l = Inr False" by simp
          have sel: "(if tries = 0 then prev else None) = None" using f by auto
          from 1 [of "(?l, Some ?l, ?w)" ?l "(Some ?l, ?w)" "Some ?l" ?w False ?w "sleep RECHECK_INTERVAL ?w"]
          have "installs (snd (snd (snd (pod_while env ns t (tries + 1) (Some ?l) (sleep RECHECK_INTERVAL ?w))))) = installs w
            \<and> created (snd (snd (snd (pod_while env ns t (tries + 1) (Some ?l) (sleep RECHECK_INTERVAL ?w))))) = created w"
            using sel r small by (simp add: Pod_get_def sleep_def)
          then show ?thesis
            unfolding pod_while_fetch_retry [OF f small r] by simp
        qed
      qed
    qed
  qed
qed

lemma targets_for_frame:
  "installs (snd (snd (targets_for env ns ts prev w))) = installs w
   \<and> created (snd (snd (targets_for env ns ts prev w))) = created w"
proof (induction ts arbitrary: prev w)
  case Nil
  show ?case by simp
next
  case (Cons t ts)
  obtain e tries p w1 where r: "pod_while env ns t 0 prev w = (e, tries, p, w1)"
    by (cases "pod_while env ns t 0 prev w") auto
  from pod_while_frame [of env ns t 0 prev w] r
  have f: "installs w1 = installs w \<and> created w1 = created w" by simp
  show ?case
  proof (cases e)
    case None
    with r f Cons [of p w1] show ?thesis by simp
  next
    case (Some err)
    with r f show ?thesis by simp
  qed
qed

lemma operators_for_frame:
  "installs (snd (operators_for env ops prev w)) = installs w
   \<and> created (snd (operators_for env ops prev w)) = created w"
proof (induction ops arbitrary: prev w)
  case Nil
  show ?case by simp
next
  case (Cons op ops)
  obtain e p w1 where r: "targets_for env (namespace op) (correspondingPods op) prev w = (e, p, w1)"
    by (cases "targets_for env (namespace op) (correspondingPods op) prev w") auto
  from targets_for_frame [of env "namespace op" "correspondingPods op" prev w] r
  have f: "installs w1 = installs w \<and> created w1 = created w" by simp
  show ?case
  proof (cases e)
    case None
    with r f Cons [of p w1] show ?thesis by simp
  next
    case (Some err)
    with r f show ?thesis by simp
  qed
qed

lemma verify_operator_running_frame:
  "installs (snd (verify_operator_running env ops w)) = installs w
   \<and> created (snd (verify_operator_running env ops w)) = created w"
  using operators_for_frame [of env ops None "header ''Verifying Operator Pods'' w"]
  by (simp add: verify_operator_running_def header_def logger_info_def)

lemma and_then_run_stages:
  "and_then (run_stages stages w) stage = run_stages (stages @ [stage]) w"
proof (induction stages arbitrary: w)
  case Nil
  show ?case by (cases "stage w") (auto simp: and_then_def split: option.splits)
next
  case (Cons s stages)
  obtain e w1 where r: "s w = (e, w1)" by (cases "s w") auto
  show ?case
  proof (cases e)
    case None
    with r Cons [of w1] show ?thesis by simp
  next
    case (Some err)
    with r show ?thesis by (simp add: and_then_def)
  qed
qed

lemma setup_stages_run_stages:
  "setup_stages iter env ops url w =
     run_stages [wait_for_catalog_sources iter env ops, wait_for_package_manifests env ops,
                 install_operators env ops, verify_operator_running env ops,
                 install_dsci env, install_datascience_cluster env url] w"
proof -
  have one: "wait_for_catalog_sources iter env ops w = run_stages [wait_for_catalog_sources iter env ops] w"
    by (cases "wait_for_catalog_sources iter env ops w") (auto split: option.splits)
  show ?thesis
    unfolding setup_stages_def one and_then_run_stages by simp
qed

lemma run_stages_halts:
  "run_stages pre w = (None, w1) \<Longrightarrow> stage w1 = (Some e, w2) \<Longrightarrow>
   run_stages (pre @ stage # post) w = (Some e, w2)"
proof (induction pre arbitrary: w)
  case Nil
  then show ?case by simp
next
  case (Cons s pre)
  obtain e' w' where r: "s w = (e', w')" by (cases "s w") auto
  show ?case
  proof (cases e')
    case None
    with r Cons show ?thesis by simp
  next
    case (Some err)
    with r Cons(2) show ?thesis by simp
  qed
qed


lemma wait_for_catalog_sources_listed:
  assumes "iter (map catalogSource ops) = [c]" and "\<forall>i. c \<in> set (list_catalog_sources env i)"
  shows "fst (wait_for_catalog_sources iter env ops w) = None"
proof -
  have "c \<in> set (list_catalog_sources env (catalog_gets (header ''Waiting for Catalog Sources'' w)))"
    using assms(2) by simp
  from catalog_while_found [OF this, of "[c]" 0] show ?thesis
    by (simp add: wait_for_catalog_sources_def assms(1) Let_def)
qed

lemma wait_for_package_manifests_listed:
  assumes "\<forall>i. name op \<in> set (list_package_manifests env i)"
  shows "fst (wait_for_package_manifests env [op] w) = None"
proof -
  let ?w = "header ''Waiting for Package Manifests'' w"
  have small: "\<not> (0::nat) > 900 div RECHECK_INTERVAL" by simp
  have "name op \<in> set (list_package_manifests env (manifest_gets ?w))" using assms by simp
  from manifest_while_fetch_found [of 0 None "name op" env ?w, OF _ small this] show ?thesis
    by (simp add: wait_for_package_manifests_def)
qed

lemma wait_for_package_manifests_never_listed:
  assumes "\<forall>i. name op \<notin> set (list_package_manifests env i)"
  shows "fst (wait_for_package_manifests env [op] w) = Some (TimeoutError (manifest_timeout_msg (name op)))"
proof -
  let ?w = "header ''Waiting for Package Manifests'' w"
  have "\<forall>j\<le>180. name op \<notin> set (examined None (\<lambda>i. list_package_manifests env (manifest_gets ?w + i)) j)"
    using assms by (simp add: examined_def)
  with manifest_while_timeout_iff [of env "name op" None ?w]
  have "fst (manifest_while env (name op) 0 None ?w) \<noteq> None" by (rule iffD2)
  then obtain e where e: "fst (manifest_while env (name op) 0 None ?w) = Some e"
    by (auto simp only: not_None_eq)
  from manifest_while_raised [OF e] have "e = TimeoutError (manifest_timeout_msg (name op))"
    by (rule conjunct1)
  with e have f: "fst (manifest_while env (name op) 0 None ?w) = Some (TimeoutError (manifest_timeout_msg (name op)))"
    by simp
  obtain tries p w1 where
    "manifest_while env (name op) 0 None ?w = (Some (TimeoutError (manifest_timeout_msg (name op))), tries, p, w1)"
    using f by (cases "manifest_while env (name op) 0 None ?w") auto
  then show ?thesis
    by (simp add: wait_for_package_manifests_def)
qed

lemma install_operators_accepted:
  assumes "\<forall>i call. install_operator_result env i call = None"
  shows "fst (install_operators env ops w) = None"
proof -
  have "fst (install_for env ops w') = None" for w'
    by (induction ops arbitrary: w') (simp_all add: assms Let_def)
  then show ?thesis by (simp add: install_operators_def)
qed

lemma verify_operator_running_no_pods:
  assumes "correspondingPods op = [t]" and "\<forall>i. list_pods env i (namespace op) = []"
  shows "fst (verify_operator_running env [op] w) = Some (TimeoutError (pod_timeout_msg t))"
proof -
  let ?w = "header ''Verifying Operator Pods'' w"
  have "\<forall>j\<le>2. pods_for t (examined None (\<lambda>i. list_pods env (length (pod_gets ?w) + i) (namespace op)) j)
      = Inr False"
    using assms(2) by (simp add: examined_def)
  from pod_while_never_ready_fst [OF this] show ?thesis
    unfolding verify_operator_running_single [OF assms(1)] .
qed






lemma first_listing_None:
  "first_listing probes c n k = None \<longleftrightarrow> (\<forall>j<k. c \<notin> set (probes (n + j)))"
proof (induction k arbitrary: n)
  case 0
  show ?case by simp
next
  case (Suc k)
  have "(\<forall>j<Suc k. c \<notin> set (probes (n + j))) \<longleftrightarrow>
      c \<notin> set (probes n) \<and> (\<forall>j<k. c \<notin> set (probes (Suc n + j)))"
    by (auto simp: less_Suc_eq_0_disj)
  with Suc [of "Suc n"] show ?case by simp
qed

lemma first_listing_Some:
  "first_listing probes c n k = Some i \<Longrightarrow>
   \<exists>d<k. i = n + d \<and> c \<in> set (probes (n + d)) \<and> (\<forall>j<d. c \<notin> set (probes (n + j)))"
proof (induction k arbitrary: n)
  case 0
  then show ?case by simp
next
  case (Suc k)
  show ?case
  proof (cases "c \<in> set (probes n)")
    case True
    with Suc(2) have "i = n" by simp
    with True show ?thesis by (intro exI [of _ 0]) simp
  next
    case False
    with Suc(2) have "first_listing probes c (Suc n) k = Some i" by simp
    from Suc(1) [OF this] obtain d where d: "d < k" "i = Suc n + d" "c \<in> set (probes (Suc n + d))"
      "\<forall>j<d. c \<notin> set (probes (Suc n + j))" by blast
    have "\<forall>j<Suc d. c \<notin> set (probes (n + j))"
      using False d(4) by (auto simp: less_Suc_eq_0_disj)
    with d(1,2,3) show ?thesis by (intro exI [of _ "Suc d"]) simp
  qed
qed

lemma catalog_while_first_listing:
  "case first_listing (list_catalog_sources env) c (catalog_gets w) 62 of
     None \<Rightarrow> \<exists>w'. catalog_while env cs c 0 w = (Some (TimeoutError (catalog_timeout_msg c)), 61, w')
               \<and> catalog_gets w' = catalog_gets w + 62
   | Some i \<Rightarrow> \<exists>tries w'. catalog_while env cs c 0 w = (None, tries, w')
               \<and> catalog_gets w' = Suc i \<and> catalog_gets w \<le> i \<and> i < catalog_gets w + 62
               \<and> c \<in> set (list_catalog_sources env i)"
proof (cases "first_listing (list_catalog_sources env) c (catalog_gets w) 62")
  case None
  then have "\<forall>j<62. c \<notin> set (list_catalog_sources env (catalog_gets w + j))"
    by (simp only: first_listing_None)
  then have a: "\<forall>j\<le>61. c \<notin> set (list_catalog_sources env (catalog_gets w + j))"
    by (simp add: less_Suc_eq_le [symmetric])
  have "(0::nat) + 61 = 61" by simp
  from catalog_while_absent [OF this a, of cs]
  obtain w' where "catalog_while env cs c 0 w = (Some (TimeoutError (catalog_timeout_msg c)), 61, w')"
    "catalog_gets w' = catalog_gets w + 61 + 1" by blast
  with None show ?thesis by simp
next
  case (Some i)
  from first_listing_Some [OF this] obtain d where d: "d < 62" "i = catalog_gets w + d"
    "c \<in> set (list_catalog_sources env (catalog_gets w + d))"
    "\<forall>j<d. c \<notin> set (list_catalog_sources env (catalog_gets w + j))" by blast
  from d(1) have "0 + d \<le> 61" by simp
  from catalog_while_hit [OF this d(3,4), of cs]
  obtain w' where "catalog_while env cs c 0 w = (None, 0 + d, w')"
    "catalog_gets w' = catalog_gets w + d + 1" by blast
  with Some d show ?thesis by simp
qed

lemma catalog_for_awaited:
  "(fst (catalog_for env cs srcs w) = None \<longleftrightarrow>
      awaited_in_turn (list_catalog_sources env) (catalog_gets w) srcs)
   \<and> catalog_gets w \<le> catalog_gets (snd (catalog_for env cs srcs w))
   \<and> catalog_gets (snd (catalog_for env cs srcs w)) \<le> catalog_gets w + 62 * length srcs
   \<and> (fst (catalog_for env cs srcs w) = None \<longrightarrow>
        (\<forall>c\<in>set srcs. \<exists>i. catalog_gets w \<le> i \<and> i < catalog_gets (snd (catalog_for env cs srcs w))
            \<and> c \<in> set (list_catalog_sources env i)))"
proof (induction srcs arbitrary: w)
  case Nil
  show ?case by simp
next
  case (Cons c srcs)
  have b: "300 div RECHECK_INTERVAL + 2 = 62" by (simp add: RECHECK_INTERVAL_def)
  have aw: "awaited_in_turn (list_catalog_sources env) (catalog_gets w) (c # srcs) =
      (case first_listing (list_catalog_sources env) c (catalog_gets w) 62 of
         None \<Rightarrow> False
       | Some i \<Rightarrow> awaited_in_turn (list_catalog_sources env) (Suc i) srcs)"
    by (simp only: awaited_in_turn.simps b)
  note step = catalog_while_first_listing [where env = env and c = c and w = w and cs = cs]
  show ?case
  proof (cases "first_listing (list_catalog_sources env) c (catalog_gets w) 62")
    case None
    with step obtain w' where
      r: "catalog_while env cs c 0 w = (Some (TimeoutError (catalog_timeout_msg c)), 61, w')"
      and g: "catalog_gets w' = catalog_gets w + 62" by auto
    from r g None show ?thesis
      by (simp add: aw del: awaited_in_turn.simps first_listing.simps)
  next
    case (Some i)
    with step obtain tries w' where
      r: "catalog_while env cs c 0 w = (None, tries, w')"
      and g: "catalog_gets w' = Suc i" "catalog_gets w \<le> i" "i < catalog_gets w + 62"
        "c \<in> set (list_catalog_sources env i)" by auto
    note IH = Cons [of w']
    let ?r = "catalog_for env cs srcs w'"
    have eq: "catalog_for env cs (c # srcs) w = ?r" by (simp add: r)
    have 1: "fst ?r = None \<longleftrightarrow> awaited_in_turn (list_catalog_sources env) (catalog_gets w) (c # srcs)"
      using IH [THEN conjunct1]
      by (simp add: aw Some g(1) del: awaited_in_turn.simps first_listing.simps)
    have 2: "catalog_gets w \<le> catalog_gets (snd ?r)"
      using IH [THEN conjunct2, THEN conjunct1] g(1,2) by simp
    have 3: "catalog_gets (snd ?r) \<le> catalog_gets w + 62 * length (c # srcs)"
      using IH [THEN conjunct2, THEN conjunct2, THEN conjunct1] g(1,3) by simp
    have 4: "\<forall>c'\<in>set (c # srcs). \<exists>i. catalog_gets w \<le> i \<and> i < catalog_gets (snd ?r)
            \<and> c' \<in> set (list_catalog_sources env i)" if ok: "fst ?r = None"
    proof
      fix c' assume "c' \<in> set (c # srcs)"
      then consider "c' = c" | "c' \<in> set srcs" by auto
      then show "\<exists>i. catalog_gets w \<le> i \<and> i < catalog_gets (snd ?r)
            \<and> c' \<in> set (list_catalog_sources env i)"
      proof cases
        case 1
        from IH [THEN conjunct2, THEN conjunct1] g(1) have "i < catalog_gets (snd ?r)" by simp
        with g(2,4) 1 show ?thesis by blast
      next
        case 2
        from IH [THEN conjunct2, THEN conjunct2, THEN conjunct2, rule_format, OF ok 2]
        obtain i' where "catalog_gets w' \<le> i'" "i' < catalog_gets (snd ?r)"
          "c' \<in> set (list_catalog_sources env i')" by blast
        moreover from this(1) g(1,2) have "catalog_gets w \<le> i'" by simp
        ultimately show ?thesis by blast
      qed
    qed
    from 1 2 3 4 show ?thesis unfolding eq by blast
  qed
qed


lemma catalog_while_never_listed:
  assumes "\<forall>i>catalog_gets w. c \<notin> set (list_catalog_sources env i)"
    and "c \<notin> set (list_catalog_sources env (catalog_gets w))"
  shows "\<exists>tries w'. catalog_while env cs c 0 w = (Some (TimeoutError (catalog_timeout_msg c)), tries, w')
           \<and> catalog_gets w' = catalog_gets w + 62"
proof -
  have "c \<notin> set (list_catalog_sources env (catalog_gets w + j))" for j
    using assms by (cases j) simp_all
  then have "\<forall>j\<le>61. c \<notin> set (list_catalog_sources env (catalog_gets w + j))" by simp
  with catalog_while_timeout_iff [of env cs c w]
  have "fst (catalog_while env cs c 0 w) \<noteq> None" by (rule iffD2)
  then obtain e where e: "fst (catalog_while env cs c 0 w) = Some e"
    by (auto simp only: not_None_eq)
  from catalog_while_raised [OF e] e show ?thesis
    by (cases "catalog_while env cs c 0 w") auto
qed

lemma first_listing_hit:
  "c \<in> set (probes n) \<Longrightarrow> 0 < k \<Longrightarrow> first_listing probes c n k = Some n"
  by (cases k) simp_all

section \<open>Reading the configuration\<close>

text \<open>
  C8. If the operator configuration file does not exist, \<open>setup_cluster\<close> logs the
  error and the hint about the working directory and re-raises the file-not-found error;
  any other failure while the configuration is read (opening the file or parsing it) is
  raised as it is. In both cases no call to the cluster has been issued.
\<close>

theorem config_failure_is_fatal:
  "(read_file env operator_config_yaml = Inl (FileNotFoundError m) \<longrightarrow>
      setup_cluster iter env operator_config_yaml url w =
        (Some (FileNotFoundError m),
         logger_error ''Operator config yaml not found, make sure your working directory is trustyai-tests/'' []
           (logger_error ''{}'' [Exc (FileNotFoundError m)] w)))
   \<and> (\<forall>e. read_file env operator_config_yaml = Inl e
            \<or> (\<exists>text. read_file env operator_config_yaml = Inr text \<and> yaml_load env text = Inl e) \<longrightarrow>
          fst (setup_cluster iter env operator_config_yaml url w) = Some e
          \<and> catalog_gets (snd (setup_cluster iter env operator_config_yaml url w)) = catalog_gets w
          \<and> manifest_gets (snd (setup_cluster iter env operator_config_yaml url w)) = manifest_gets w
          \<and> pod_gets (snd (setup_cluster iter env operator_config_yaml url w)) = pod_gets w
          \<and> installs (snd (setup_cluster iter env operator_config_yaml url w)) = installs w
          \<and> created (snd (setup_cluster iter env operator_config_yaml url w)) = created w)"
proof -
  have load: "load_config env operator_config_yaml = Inl e"
    if "read_file env operator_config_yaml = Inl e
        \<or> (\<exists>text. read_file env operator_config_yaml = Inr text \<and> yaml_load env text = Inl e)" for e
    using that by (auto simp: load_config_def)
  have fatal: "fst (setup_cluster iter env operator_config_yaml url w) = Some e
          \<and> catalog_gets (snd (setup_cluster iter env operator_config_yaml url w)) = catalog_gets w
          \<and> manifest_gets (snd (setup_cluster iter env operator_config_yaml url w)) = manifest_gets w
          \<and> pod_gets (snd (setup_cluster iter env operator_config_yaml url w)) = pod_gets w
          \<and> installs (snd (setup_cluster iter env operator_config_yaml url w)) = installs w
          \<and> created (snd (setup_cluster iter env operator_config_yaml url w)) = created w"
    if "load_config env operator_config_yaml = Inl e" for e
    using that by (cases e) (simp_all add: setup_cluster_def logger_error_def)
  have first: "setup_cluster iter env operator_config_yaml url w =
        (Some (FileNotFoundError m),
         logger_error ''Operator config yaml not found, make sure your working directory is trustyai-tests/'' []
           (logger_error ''{}'' [Exc (FileNotFoundError m)] w))"
    if "read_file env operator_config_yaml = Inl (FileNotFoundError m)"
    using that by (simp add: setup_cluster_def load_config_def)
  from load fatal first show ?thesis by blast
qed

theorem config_failure_is_fatal_witness:
  "read_file empty_cluster ''setup/operators_config.yaml'' = Inl (FileNotFoundError ''setup/operators_config.yaml'')
   \<and> fst (setup_cluster remdups empty_cluster ''setup/operators_config.yaml'' DEFAULT_REPO initial_world)
       = Some (FileNotFoundError ''setup/operators_config.yaml'')
   \<and> log (snd (setup_cluster remdups empty_cluster ''setup/operators_config.yaml'' DEFAULT_REPO initial_world))
       = [(ERROR, ''{}'', [Exc (FileNotFoundError ''setup/operators_config.yaml'')]),
          (ERROR, ''Operator config yaml not found, make sure your working directory is trustyai-tests/'', [])]
   \<and> installs (snd (setup_cluster remdups empty_cluster ''setup/operators_config.yaml'' DEFAULT_REPO initial_world)) = []"
  using config_failure_is_fatal [of empty_cluster "''setup/operators_config.yaml''"
      "''setup/operators_config.yaml''" remdups DEFAULT_REPO initial_world]
  by (simp add: empty_cluster_def initial_world_def logger_error_def)

section \<open>The timeout boundary of the polling loops\<close>

text \<open>
  C1. Every polling loop raises its \<open>TimeoutError\<close> exactly when \<open>tries\<close> exceeds the
  bound, that is in the iteration with \<open>tries = bound + 1\<close>, never in an earlier one and
  never later: the bound is \<open>300 // RECHECK_INTERVAL\<close> for the catalog sources,
  \<open>900 // RECHECK_INTERVAL\<close> for the package manifests and
  \<open>RECHECK_INTERVAL // RECHECK_INTERVAL\<close> for the pods. The first two loops raise nothing
  but that error, and they raise it if and only if the awaited name is in none of the
  lists looked at before: the listings of the attempts \<open>0 .. bound + 1\<close> for a catalog
  source (its check sits behind the membership test), the lists of the attempts
  \<open>0 .. bound\<close> for a package manifest (its check follows the scan whatever it found).
  The pod loop raises its \<open>TimeoutError\<close> if and only if the scans of the attempts
  \<open>0 .. bound\<close> find no ready pod for the target and the scan of the attempt
  \<open>bound + 1\<close> raises no lookup error (its check, too, follows the scan whatever it
  found).
\<close>

theorem timeout_raised_exactly_past_bound:
  "(fst (catalog_while env cs c 0 w) \<noteq> None \<longleftrightarrow>
      (\<forall>j \<le> 300 div RECHECK_INTERVAL + 1. c \<notin> set (list_catalog_sources env (catalog_gets w + j))))
   \<and> (\<forall>e. fst (catalog_while env cs c 0 w) = Some e \<longrightarrow>
          e = TimeoutError (catalog_timeout_msg c)
          \<and> fst (snd (catalog_while env cs c 0 w)) = 300 div RECHECK_INTERVAL + 1)
   \<and> (fst (manifest_while env n 0 prev w) \<noteq> None \<longleftrightarrow>
      (\<forall>j \<le> 900 div RECHECK_INTERVAL.
          n \<notin> set (examined prev (\<lambda>i. list_package_manifests env (manifest_gets w + i)) j)))
   \<and> (\<forall>e. fst (manifest_while env n 0 prev w) = Some e \<longrightarrow>
          e = TimeoutError (manifest_timeout_msg n)
          \<and> fst (snd (manifest_while env n 0 prev w)) = 900 div RECHECK_INTERVAL + 1)
   \<and> (\<forall>m. fst (pod_while env ns t 0 cache w) = Some (TimeoutError m) \<longrightarrow>
          m = pod_timeout_msg t
          \<and> fst (snd (pod_while env ns t 0 cache w)) = RECHECK_INTERVAL div RECHECK_INTERVAL + 1)
   \<and> (fst (pod_while env ns t 0 cache w) = Some (TimeoutError (pod_timeout_msg t)) \<longleftrightarrow>
      (\<forall>j \<le> RECHECK_INTERVAL div RECHECK_INTERVAL.
          pods_for t (examined cache (\<lambda>i. list_pods env (length (pod_gets w) + i) ns) j) = Inr False)
      \<and> (\<exists>found. pods_for t (examined cache (\<lambda>i. list_pods env (length (pod_gets w) + i) ns)
                      (RECHECK_INTERVAL div RECHECK_INTERVAL + 1)) = Inr found))"
proof -
  have c: "300 div RECHECK_INTERVAL + 1 = 61" and m: "900 div RECHECK_INTERVAL = 180"
    and m1: "(180::nat) + 1 = 181" and p: "(1::nat) + 1 = 2"
    and p0: "RECHECK_INTERVAL div RECHECK_INTERVAL = 1"
    by (simp_all add: RECHECK_INTERVAL_def)
  have 1: "fst (catalog_while env cs c 0 w) \<noteq> None \<longleftrightarrow>
      (\<forall>j \<le> 61. c \<notin> set (list_catalog_sources env (catalog_gets w + j)))"
    by (rule catalog_while_timeout_iff)
  have 2: "\<forall>e. fst (catalog_while env cs c 0 w) = Some e \<longrightarrow>
          e = TimeoutError (catalog_timeout_msg c) \<and> fst (snd (catalog_while env cs c 0 w)) = 61"
  proof (intro allI impI)
    fix e assume "fst (catalog_while env cs c 0 w) = Some e"
    from catalog_while_raised [OF this]
    show "e = TimeoutError (catalog_timeout_msg c) \<and> fst (snd (catalog_while env cs c 0 w)) = 61"
      by (elim conjE) (intro conjI)
  qed
  have 3: "fst (manifest_while env n 0 prev w) \<noteq> None \<longleftrightarrow>
      (\<forall>j \<le> 180. n \<notin> set (examined prev (\<lambda>i. list_package_manifests env (manifest_gets w + i)) j))"
    by (rule manifest_while_timeout_iff)
  have 4: "\<forall>e. fst (manifest_while env n 0 prev w) = Some e \<longrightarrow>
          e = TimeoutError (manifest_timeout_msg n) \<and> fst (snd (manifest_while env n 0 prev w)) = 181"
    using manifest_while_raised by (intro allI impI)
  have 5: "\<forall>m. fst (pod_while env ns t 0 cache w) = Some (TimeoutError m) \<longrightarrow>
          m = pod_timeout_msg t \<and> fst (snd (pod_while env ns t 0 cache w)) = 2"
    using pod_while_timeout_tries by (intro allI impI)
  have 6: "fst (pod_while env ns t 0 cache w) = Some (TimeoutError (pod_timeout_msg t)) \<longleftrightarrow>
      (\<forall>j \<le> 1. pods_for t (examined cache (\<lambda>i. list_pods env (length (pod_gets w) + i) ns) j) = Inr False)
      \<and> (\<exists>found. pods_for t (examined cache (\<lambda>i. list_pods env (length (pod_gets w) + i) ns) 2) = Inr found)"
    by (rule pod_while_timeout_iff)
  show ?thesis
    unfolding c m m1 p0 p by (intro conjI 1 2 3 4 5 6)
qed

theorem timeout_raised_exactly_past_bound_witness:
  "fst (catalog_while empty_cluster [''redhat-operators''] ''redhat-operators'' 0 initial_world)
     = Some (TimeoutError ''Catalog Source redhat-operators not found'')
   \<and> fst (snd (catalog_while empty_cluster [''redhat-operators''] ''redhat-operators'' 0 initial_world)) = 61
   \<and> fst (manifest_while empty_cluster ''opendatahub-operator'' 0 None initial_world)
     = Some (TimeoutError ''Package Manifests for opendatahub-operator not found'')
   \<and> fst (snd (manifest_while empty_cluster ''opendatahub-operator'' 0 None initial_world)) = 181
   \<and> fst (pod_while empty_cluster ''openshift-operators'' ''trustyai-operator'' 0 None initial_world)
     = Some (TimeoutError ''Timeout waiting for trustyai-operator pod'')
   \<and> fst (snd (pod_while empty_cluster ''openshift-operators'' ''trustyai-operator'' 0 None initial_world)) = 2"
proof -
  note t = timeout_raised_exactly_past_bound [of empty_cluster "[''redhat-operators'']"
      "''redhat-operators''" initial_world "''opendatahub-operator''" None "''openshift-operators''"
      "''trustyai-operator''" None]
  note t1 = t [THEN conjunct1] and t2 = t [THEN conjunct2, THEN conjunct1]
    and t3 = t [THEN conjunct2, THEN conjunct2, THEN conjunct1]
    and t4 = t [THEN conjunct2, THEN conjunct2, THEN conjunct2, THEN conjunct1]
    and t5 = t [THEN conjunct2, THEN conjunct2, THEN conjunct2, THEN conjunct2, THEN conjunct1]
    and t6 = t [THEN conjunct2, THEN conjunct2, THEN conjunct2, THEN conjunct2, THEN conjunct2]
  have absent: "\<forall>j \<le> 300 div RECHECK_INTERVAL + 1.
      ''redhat-operators'' \<notin> set (list_catalog_sources empty_cluster (catalog_gets initial_world + j))"
    by (simp add: empty_cluster_def)
  have absent': "\<forall>j \<le> 900 div RECHECK_INTERVAL. ''opendatahub-operator'' \<notin>
      set (examined None (\<lambda>i. list_package_manifests empty_cluster (manifest_gets initial_world + i)) j)"
    by (simp add: empty_cluster_def examined_def)
  have never: "(\<forall>j \<le> RECHECK_INTERVAL div RECHECK_INTERVAL.
          pods_for ''trustyai-operator''
            (examined None (\<lambda>i. list_pods empty_cluster (length (pod_gets initial_world) + i) ''openshift-operators'') j)
          = Inr False)
      \<and> (\<exists>found. pods_for ''trustyai-operator''
            (examined None (\<lambda>i. list_pods empty_cluster (length (pod_gets initial_world) + i) ''openshift-operators'')
               (RECHECK_INTERVAL div RECHECK_INTERVAL + 1)) = Inr found)"
    by (simp add: empty_cluster_def examined_def exI [of _ False])
  from t1 absent have "fst (catalog_while empty_cluster [''redhat-operators''] ''redhat-operators'' 0 initial_world) \<noteq> None"
    by (rule iffD2)
  then obtain e where e: "fst (catalog_while empty_cluster [''redhat-operators''] ''redhat-operators'' 0 initial_world) = Some e"
    by (auto simp only: not_None_eq)
  from t3 absent' have "fst (manifest_while empty_cluster ''opendatahub-operator'' 0 None initial_world) \<noteq> None"
    by (rule iffD2)
  then obtain e' where e': "fst (manifest_while empty_cluster ''opendatahub-operator'' 0 None initial_world) = Some e'"
    by (auto simp only: not_None_eq)
  from t6 never have p: "fst (pod_while empty_cluster ''openshift-operators'' ''trustyai-operator'' 0 None initial_world)
      = Some (TimeoutError (pod_timeout_msg ''trustyai-operator''))"
    by (rule iffD2)
  from t2 [rule_format, OF e] have a: "e = TimeoutError (catalog_timeout_msg ''redhat-operators'')
      \<and> fst (snd (catalog_while empty_cluster [''redhat-operators''] ''redhat-operators'' 0 initial_world))
          = 300 div RECHECK_INTERVAL + 1" .
  from t4 [rule_format, OF e'] have b: "e' = TimeoutError (manifest_timeout_msg ''opendatahub-operator'')
      \<and> fst (snd (manifest_while empty_cluster ''opendatahub-operator'' 0 None initial_world))
          = 900 div RECHECK_INTERVAL + 1" .
  from t5 [rule_format, OF p] have d: "pod_timeout_msg ''trustyai-operator'' = pod_timeout_msg ''trustyai-operator''
      \<and> fst (snd (pod_while empty_cluster ''openshift-operators'' ''trustyai-operator'' 0 None initial_world))
          = RECHECK_INTERVAL div RECHECK_INTERVAL + 1" .
  from a b d e e' p show ?thesis
    by (simp add: catalog_timeout_msg_def manifest_timeout_msg_def pod_timeout_msg_def RECHECK_INTERVAL_def)
qed

section \<open>The retry budget of the pod check\<close>




section \<open>The readiness predicate of a pod target\<close>



section \<open>The pod list cached across targets and namespaces\<close>



section \<open>The substitution of the manifests URL\<close>

text \<open>
  C5. Split at the occurrences of the token \<open>TRUSTYAI_REPO_PLACEHOLDER\<close> (found from
  the left, not overlapping), the template is the sequence of its parts joined by the
  token, no part contains the token, and the document that \<open>install_datascience_cluster\<close>
  submits is the same sequence of parts joined by the URL: the URL stands in place of
  each occurrence of the token and everything else is the template, byte for byte.
  This holds for every URL, whether or not it contains the token.
\<close>

theorem placeholder_replaced_by_url:
  "str_join PLACEHOLDER (str_split PLACEHOLDER template) = template
   \<and> (\<forall>part \<in> set (str_split PLACEHOLDER template). \<not> sublist PLACEHOLDER part)
   \<and> dsc_config template url = str_join url (str_split PLACEHOLDER template)
   \<and> (read_file env ''manifests/dsc_template.yaml'' = Inr template \<longrightarrow>
        created (snd (install_datascience_cluster env url w)) =
          created w @ [DataScienceCluster_doc (str_join url (str_split PLACEHOLDER template))])"
proof (intro conjI ballI impI)
  show "str_join PLACEHOLDER (str_split PLACEHOLDER template) = template"
    by (rule str_join_split [OF PLACEHOLDER_not_Nil])
next
  fix part assume "part \<in> set (str_split PLACEHOLDER template)"
  then show "\<not> sublist PLACEHOLDER part"
    by (rule str_split_parts [OF PLACEHOLDER_not_Nil])
next
  show d: "dsc_config template url = str_join url (str_split PLACEHOLDER template)"
    by (simp add: dsc_config_def str_replace_def PLACEHOLDER_not_Nil replace_scan_join)
  assume "read_file env ''manifests/dsc_template.yaml'' = Inr template"
  then show "created (snd (install_datascience_cluster env url w)) =
          created w @ [DataScienceCluster_doc (str_join url (str_split PLACEHOLDER template))]"
    by (simp add: install_datascience_cluster_def create_resource_def d header_def logger_info_def)
qed

theorem placeholder_replaced_by_url_witness:
  "str_split PLACEHOLDER ''a: TRUSTYAI_REPO_PLACEHOLDER, b: TRUSTYAI_REPO_PLACEHOLDER!'' = [''a: '', '', b: '', ''!'']
   \<and> dsc_config ''a: TRUSTYAI_REPO_PLACEHOLDER, b: TRUSTYAI_REPO_PLACEHOLDER!'' ''https://x/y.tgz''
       = ''a: https://x/y.tgz, b: https://x/y.tgz!''
   \<and> created (snd (install_datascience_cluster template_cluster ''https://x/y.tgz'' initial_world))
       = [DataScienceCluster_doc ''a: https://x/y.tgz, b: https://x/y.tgz!'']"
proof -
  have split: "str_split PLACEHOLDER ''a: TRUSTYAI_REPO_PLACEHOLDER, b: TRUSTYAI_REPO_PLACEHOLDER!''
      = [''a: '', '', b: '', ''!'']"
    by (simp add: PLACEHOLDER_def)
  have tfile: "read_file template_cluster ''manifests/dsc_template.yaml''
      = Inr ''a: TRUSTYAI_REPO_PLACEHOLDER, b: TRUSTYAI_REPO_PLACEHOLDER!''"
    by (simp add: template_cluster_def)
  from placeholder_replaced_by_url [of "''a: TRUSTYAI_REPO_PLACEHOLDER, b: TRUSTYAI_REPO_PLACEHOLDER!''"
      "''https://x/y.tgz''" template_cluster initial_world]
  show ?thesis
    unfolding split by (simp add: tfile initial_world_def)
qed

section \<open>The sequence of the stages\<close>

text \<open>
  C6. Once the configuration is loaded, \<open>setup_cluster\<close> runs its six stages in the
  order of the source and stops at the first one that raises: the error of that stage
  is the error of \<open>setup_cluster\<close>, and the state of the world is exactly the one the
  failing stage left, so no later stage has run and nothing done by the earlier stages
  is undone. In particular, when \<open>wait_for_package_manifests\<close> raises, no
  \<open>install_operator\<close> call has been issued, no resource has been created and no pod has
  been listed; and when \<open>verify_operator_running\<close> raises after the installation
  succeeded, the installation calls of all operators stay issued.
\<close>

theorem setup_cluster_stops_at_first_failure:
  assumes "load_config env operator_config_yaml = Inr operator_data"
  shows "setup_cluster iter env operator_config_yaml url w =
           run_stages [wait_for_catalog_sources iter env operator_data,
                       wait_for_package_manifests env operator_data,
                       install_operators env operator_data,
                       verify_operator_running env operator_data,
                       install_dsci env,
                       install_datascience_cluster env url] w
       \<and> ([wait_for_catalog_sources iter env operator_data,
            wait_for_package_manifests env operator_data,
            install_operators env operator_data,
            verify_operator_running env operator_data,
            install_dsci env,
            install_datascience_cluster env url] = pre @ stage # post
           \<and> run_stages pre w = (None, w') \<and> stage w' = (Some e', w'') \<longrightarrow>
          setup_cluster iter env operator_config_yaml url w = (Some e', w''))
       \<and> (wait_for_catalog_sources iter env operator_data w = (None, w1)
           \<and> wait_for_package_manifests env operator_data w1 = (Some e, w2) \<longrightarrow>
          setup_cluster iter env operator_config_yaml url w = (Some e, w2)
          \<and> installs w2 = installs w \<and> created w2 = created w \<and> pod_gets w2 = pod_gets w)
       \<and> (wait_for_catalog_sources iter env operator_data w = (None, v1)
           \<and> wait_for_package_manifests env operator_data v1 = (None, v2)
           \<and> install_operators env operator_data v2 = (None, v3)
           \<and> verify_operator_running env operator_data v3 = (Some e, v4) \<longrightarrow>
          setup_cluster iter env operator_config_yaml url w = (Some e, v4)
          \<and> installs v4 = installs w @ map install_request operator_data
          \<and> created v4 = created w)"
proof -
  let ?stages = "[wait_for_catalog_sources iter env operator_data,
                  wait_for_package_manifests env operator_data,
                  install_operators env operator_data,
                  verify_operator_running env operator_data,
                  install_dsci env,
                  install_datascience_cluster env url]"
  have run: "setup_cluster iter env operator_config_yaml url w = run_stages ?stages w"
    by (simp add: setup_cluster_def assms setup_stages_run_stages)
  have halt: "setup_cluster iter env operator_config_yaml url w = (Some e', w'')"
    if "?stages = pre @ stage # post \<and> run_stages pre w = (None, w') \<and> stage w' = (Some e', w'')"
  proof -
    from that have "run_stages (pre @ stage # post) w = (Some e', w'')"
      by (intro run_stages_halts [of pre w w']) simp_all
    with that show ?thesis unfolding run by simp
  qed
  have manifests: "setup_cluster iter env operator_config_yaml url w = (Some e, w2)
          \<and> installs w2 = installs w \<and> created w2 = created w \<and> pod_gets w2 = pod_gets w"
    if "wait_for_catalog_sources iter env operator_data w = (None, w1)
        \<and> wait_for_package_manifests env operator_data w1 = (Some e, w2)"
  proof -
    from wait_for_catalog_sources_frame [of iter env operator_data w] that
    have 1: "installs w1 = installs w \<and> created w1 = created w \<and> pod_gets w1 = pod_gets w" by simp
    from wait_for_package_manifests_frame [of env operator_data w1] that
    have 2: "installs w2 = installs w1 \<and> created w2 = created w1 \<and> pod_gets w2 = pod_gets w1" by simp
    from that have "run_stages ?stages w = (Some e, w2)" by simp
    with 1 2 show ?thesis unfolding run by simp
  qed
  have pods: "setup_cluster iter env operator_config_yaml url w = (Some e, v4)
          \<and> installs v4 = installs w @ map install_request operator_data
          \<and> created v4 = created w"
    if "wait_for_catalog_sources iter env operator_data w = (None, v1)
           \<and> wait_for_package_manifests env operator_data v1 = (None, v2)
           \<and> install_operators env operator_data v2 = (None, v3)
           \<and> verify_operator_running env operator_data v3 = (Some e, v4)"
  proof -
    from wait_for_catalog_sources_frame [of iter env operator_data w] that
    have 1: "installs v1 = installs w \<and> created v1 = created w" by simp
    from wait_for_package_manifests_frame [of env operator_data v1] that
    have 2: "installs v2 = installs v1 \<and> created v2 = created v1" by simp
    from install_operators_frame [of env operator_data v2] that
    have 3: "installs v3 = installs v2 @ map install_request operator_data \<and> created v3 = created v2"
      by simp
    from verify_operator_running_frame [of env operator_data v3] that
    have 4: "installs v4 = installs v3 \<and> created v4 = created v3" by simp
    from that have "run_stages ?stages w = (Some e, v4)" by simp
    with 1 2 3 4 show ?thesis unfolding run by simp
  qed
  from run halt manifests pods show ?thesis by blast
qed

theorem setup_cluster_stops_at_first_failure_witness:
  "fst (setup_cluster remdups catalog_only_cluster ''setup/operators_config.yaml'' DEFAULT_REPO initial_world)
     = Some (TimeoutError ''Package Manifests for opendatahub-operator not found'')
   \<and> installs (snd (setup_cluster remdups catalog_only_cluster ''setup/operators_config.yaml'' DEFAULT_REPO
        initial_world)) = []
   \<and> created (snd (setup_cluster remdups catalog_only_cluster ''setup/operators_config.yaml'' DEFAULT_REPO
        initial_world)) = []
   \<and> fst (setup_cluster remdups no_pods_cluster ''setup/operators_config.yaml'' DEFAULT_REPO initial_world)
     = Some (TimeoutError ''Timeout waiting for trustyai-operator pod'')
   \<and> installs (snd (setup_cluster remdups no_pods_cluster ''setup/operators_config.yaml'' DEFAULT_REPO
        initial_world)) = [install_request example_operator]
   \<and> created (snd (setup_cluster remdups no_pods_cluster ''setup/operators_config.yaml'' DEFAULT_REPO
        initial_world)) = []"
proof -
  let ?f = "''setup/operators_config.yaml''"
  let ?ops = "[example_operator]"
  have ops: "name example_operator = ''opendatahub-operator''"
    "catalogSource example_operator = ''community-operators''"
    "correspondingPods example_operator = [''trustyai-operator'']"
    by (simp_all add: example_operator_def)
  have it: "remdups (map catalogSource ?ops) = [''community-operators'']" by (simp add: ops)
  have load: "load_config catalog_only_cluster ?f = Inr ?ops" "load_config no_pods_cluster ?f = Inr ?ops"
    by (simp_all add: load_config_def catalog_only_cluster_def no_pods_cluster_def)
  let ?c1 = "wait_for_catalog_sources remdups catalog_only_cluster ?ops initial_world"
  let ?m1 = "wait_for_package_manifests catalog_only_cluster ?ops (snd ?c1)"
  have "fst ?c1 = None"
    by (rule wait_for_catalog_sources_listed
          [of remdups ?ops "''community-operators''" catalog_only_cluster, OF it])
       (simp add: catalog_only_cluster_def)
  then have c1: "?c1 = (None, snd ?c1)" by (simp add: prod_eq_iff)
  have "fst ?m1 = Some (TimeoutError (manifest_timeout_msg (name example_operator)))"
    by (rule wait_for_package_manifests_never_listed)
       (simp add: catalog_only_cluster_def empty_cluster_def ops)
  then have m1: "?m1 = (Some (TimeoutError (manifest_timeout_msg (name example_operator))), snd ?m1)"
    by (simp add: prod_eq_iff)
  note t1 = setup_cluster_stops_at_first_failure [OF load(1), of remdups DEFAULT_REPO initial_world,
      THEN conjunct2, THEN conjunct2, THEN conjunct1, THEN mp, OF conjI, OF c1 m1]
  let ?c2 = "wait_for_catalog_sources remdups no_pods_cluster ?ops initial_world"
  let ?m2 = "wait_for_package_manifests no_pods_cluster ?ops (snd ?c2)"
  let ?i2 = "install_operators no_pods_cluster ?ops (snd ?m2)"
  let ?v2 = "verify_operator_running no_pods_cluster ?ops (snd ?i2)"
  have "fst ?c2 = None"
    by (rule wait_for_catalog_sources_listed
          [of remdups ?ops "''community-operators''" no_pods_cluster, OF it])
       (simp add: no_pods_cluster_def catalog_only_cluster_def)
  then have c2: "?c2 = (None, snd ?c2)" by (simp add: prod_eq_iff)
  have "fst ?m2 = None"
    by (rule wait_for_package_manifests_listed) (simp add: no_pods_cluster_def ops)
  then have m2: "?m2 = (None, snd ?m2)" by (simp add: prod_eq_iff)
  have "fst ?i2 = None"
    by (rule install_operators_accepted)
       (simp add: no_pods_cluster_def catalog_only_cluster_def empty_cluster_def)
  then have i2: "?i2 = (None, snd ?i2)" by (simp add: prod_eq_iff)
  have "fst ?v2 = Some (TimeoutError (pod_timeout_msg ''trustyai-operator''))"
    by (rule verify_operator_running_no_pods [OF ops(3)])
       (simp add: no_pods_cluster_def catalog_only_cluster_def empty_cluster_def)
  then have v2: "?v2 = (Some (TimeoutError (pod_timeout_msg ''trustyai-operator'')), snd ?v2)"
    by (simp add: prod_eq_iff)
  note t2 = setup_cluster_stops_at_first_failure [OF load(2), of remdups DEFAULT_REPO initial_world,
      THEN conjunct2, THEN conjunct2, THEN conjunct2, THEN mp, OF conjI, OF c2 conjI, OF m2 conjI, OF i2 v2]
  from t1 t2 show ?thesis
    by (simp add: manifest_timeout_msg_def pod_timeout_msg_def ops initial_world_def)
qed

section \<open>The cached first probe against fetching on every attempt\<close>




section \<open>The probes of the wait for the catalog sources\<close>

text \<open>
  C2. \<open>wait_for_catalog_sources\<close> awaits the catalog sources one after the other, in the
  order in which the loop visits the set. For each awaited source it issues at most
  \<open>300 // RECHECK_INTERVAL + 2\<close> listings (62, one more than \<open>300 / 5 + 1\<close>), hence at
  most that many times the number of sources in all. It returns normally if and only if
  every source, taken in turn, appears in one of the at most 62 listings that start
  where the wait for the source before it ended; a listing issued while another source
  was awaited does not count. When it returns normally, every source appears in a
  listing issued during the call. For the values of a set that holds each catalog source
  of the configuration once, the number of sources is the number of distinct names.
\<close>

theorem catalog_sources_awaited_in_turn:
  "catalog_gets (snd (snd (catalog_while env cs c 0 w)))
      \<le> catalog_gets w + (300 div RECHECK_INTERVAL + 2)
   \<and> catalog_gets (snd (wait_for_catalog_sources iter env operator_data w))
      \<le> catalog_gets w + (300 div RECHECK_INTERVAL + 2) * length (iter (map catalogSource operator_data))
   \<and> (fst (wait_for_catalog_sources iter env operator_data w) = None \<longleftrightarrow>
        awaited_in_turn (list_catalog_sources env) (catalog_gets w) (iter (map catalogSource operator_data)))
   \<and> (fst (wait_for_catalog_sources iter env operator_data w) = None \<longrightarrow>
        (\<forall>source \<in> set (iter (map catalogSource operator_data)).
           \<exists>i. catalog_gets w \<le> i
              \<and> i < catalog_gets (snd (wait_for_catalog_sources iter env operator_data w))
              \<and> source \<in> set (list_catalog_sources env i)))
   \<and> (distinct (iter (map catalogSource operator_data))
        \<and> set (iter (map catalogSource operator_data)) = set (map catalogSource operator_data) \<longrightarrow>
        length (iter (map catalogSource operator_data)) = card (catalogSource ` set operator_data))"
proof -
  let ?srcs = "iter (map catalogSource operator_data)"
  let ?w = "header ''Waiting for Catalog Sources'' w"
  have b: "300 div RECHECK_INTERVAL + 2 = 62" by (simp add: RECHECK_INTERVAL_def)
  have g: "catalog_gets ?w = catalog_gets w" by (simp add: header_def logger_info_def)
  have wait: "wait_for_catalog_sources iter env operator_data w = catalog_for env ?srcs ?srcs ?w"
    by (simp add: wait_for_catalog_sources_def Let_def)
  note all = catalog_for_awaited [of env ?srcs ?srcs ?w, unfolded g, folded wait]
  have 1: "catalog_gets (snd (snd (catalog_while env cs c 0 w))) \<le> catalog_gets w + 62"
    using catalog_while_first_listing [where env = env and c = c and w = w and cs = cs]
    by (cases "first_listing (list_catalog_sources env) c (catalog_gets w) 62") auto
  have 2: "catalog_gets (snd (wait_for_catalog_sources iter env operator_data w))
      \<le> catalog_gets w + 62 * length ?srcs"
    using all by (elim conjE)
  have 3: "fst (wait_for_catalog_sources iter env operator_data w) = None \<longleftrightarrow>
        awaited_in_turn (list_catalog_sources env) (catalog_gets w) ?srcs"
    using all by (elim conjE)
  have 4: "fst (wait_for_catalog_sources iter env operator_data w) = None \<longrightarrow>
        (\<forall>source \<in> set ?srcs.
           \<exists>i. catalog_gets w \<le> i
              \<and> i < catalog_gets (snd (wait_for_catalog_sources iter env operator_data w))
              \<and> source \<in> set (list_catalog_sources env i))"
    using all by (elim conjE)
  have 5: "distinct ?srcs \<and> set ?srcs = set (map catalogSource operator_data) \<longrightarrow>
        length ?srcs = card (catalogSource ` set operator_data)"
    using distinct_card [of ?srcs] by auto
  show ?thesis
    unfolding b by (intro conjI 1 2 3 4 5)
qed

theorem catalog_sources_awaited_in_turn_witness:
  "fst (wait_for_catalog_sources remdups catalog_only_cluster [example_operator] initial_world) = None
   \<and> catalog_gets (snd (wait_for_catalog_sources remdups catalog_only_cluster [example_operator]
        initial_world)) \<le> 62"
proof -
  have src: "remdups (map catalogSource [example_operator]) = [''community-operators'']"
    by (simp add: example_operator_def)
  have hit: "first_listing (list_catalog_sources catalog_only_cluster) ''community-operators''
      (catalog_gets initial_world) (300 div RECHECK_INTERVAL + 2) = Some (catalog_gets initial_world)"
    by (rule first_listing_hit) (simp_all add: catalog_only_cluster_def)
  have aw: "awaited_in_turn (list_catalog_sources catalog_only_cluster) (catalog_gets initial_world)
      [''community-operators'']"
    by (simp only: awaited_in_turn.simps hit option.case)
  note t = catalog_sources_awaited_in_turn [of catalog_only_cluster "[]" "''x''" initial_world remdups
      "[example_operator]"]
  from t [THEN conjunct2, THEN conjunct2, THEN conjunct1] aw
  have ok: "fst (wait_for_catalog_sources remdups catalog_only_cluster [example_operator] initial_world) = None"
    unfolding src by (rule iffD2)
  from t [THEN conjunct2, THEN conjunct1]
  have "catalog_gets (snd (wait_for_catalog_sources remdups catalog_only_cluster [example_operator]
        initial_world)) \<le> 62"
    unfolding src by (simp add: initial_world_def RECHECK_INTERVAL_def)
  with ok show ?thesis by (rule conjI)
qed

theorem catalog_probe_count_counterexample:
  "fst (wait_for_catalog_sources remdups empty_cluster [example_operator] initial_world)
     = Some (TimeoutError ''Catalog Source community-operators not found'')
   \<and> catalog_gets (snd (wait_for_catalog_sources remdups empty_cluster [example_operator] initial_world)) = 62
   \<and> ''community-operators'' \<in> set (list_catalog_sources flash_cluster 0)
   \<and> ''redhat-operators'' \<in> set (list_catalog_sources flash_cluster 0)
   \<and> fst (wait_for_catalog_sources remdups flash_cluster [example_operator, other_operator] initial_world)
     = Some (TimeoutError ''Catalog Source redhat-operators not found'')
   \<and> fst (wait_for_catalog_sources (\<lambda>xs. rev (remdups xs)) flash_cluster [example_operator, other_operator]
        initial_world)
     = Some (TimeoutError ''Catalog Source community-operators not found'')"
proof -
  let ?a = "''community-operators''" and ?b = "''redhat-operators''"
  let ?w = "header ''Waiting for Catalog Sources'' initial_world"
  have g: "catalog_gets ?w = 0" by (simp add: header_def logger_info_def initial_world_def)
  have src: "catalogSource example_operator = ?a" "catalogSource other_operator = ?b"
    by (simp_all add: example_operator_def other_operator_def)
  have l: "list_catalog_sources flash_cluster 0 = [?a, ?b]"
    "list_catalog_sources flash_cluster (Suc i) = []" for i
    by (simp_all add: flash_cluster_def)
  have "\<exists>tries w'. catalog_while empty_cluster [?a] ?a 0 ?w
      = (Some (TimeoutError (catalog_timeout_msg ?a)), tries, w') \<and> catalog_gets w' = catalog_gets ?w + 62"
    by (rule catalog_while_never_listed) (simp_all add: empty_cluster_def)
  then obtain tries w' where e: "catalog_while empty_cluster [?a] ?a 0 ?w
      = (Some (TimeoutError (catalog_timeout_msg ?a)), tries, w')" "catalog_gets w' = 62"
    unfolding g by auto
  have 1: "wait_for_catalog_sources remdups empty_cluster [example_operator] initial_world
      = (Some (TimeoutError (catalog_timeout_msg ?a)), w')"
    by (simp add: wait_for_catalog_sources_def Let_def src e)
  have later: "c \<notin> set (list_catalog_sources flash_cluster i)" if "i > 0" for c i
    using that by (cases i) (simp_all add: l)
  let ?w1 = "\<lambda>cs. logger_info ''{} catalog found'' [StrSet cs] (?w\<lparr>catalog_gets := Suc (catalog_gets ?w)\<rparr>)"
  have g1: "catalog_gets (?w1 cs) = Suc 0" for cs by (simp add: logger_info_def g)
  have fa: "catalog_while flash_cluster cs ?a 0 ?w = (None, 0, ?w1 cs)" for cs
    by (rule catalog_while_found) (simp add: g l)
  have fb: "catalog_while flash_cluster cs ?b 0 ?w = (None, 0, ?w1 cs)" for cs
    by (rule catalog_while_found) (simp add: g l)
  have "\<exists>tries w'. catalog_while flash_cluster cs c 0 (?w1 cs)
      = (Some (TimeoutError (catalog_timeout_msg c)), tries, w') \<and> catalog_gets w' = catalog_gets (?w1 cs) + 62"
    for cs c
    by (rule catalog_while_never_listed) (simp_all add: g1 later)
  then have never: "\<exists>tries w'. catalog_while flash_cluster cs c 0 (?w1 cs)
      = (Some (TimeoutError (catalog_timeout_msg c)), tries, w')" for cs c
    by blast
  from never [of "[?a, ?b]" ?b] obtain t2 w2 where
    nb: "catalog_while flash_cluster [?a, ?b] ?b 0 (?w1 [?a, ?b])
      = (Some (TimeoutError (catalog_timeout_msg ?b)), t2, w2)" by blast
  from never [of "[?b, ?a]" ?a] obtain t3 w3 where
    na: "catalog_while flash_cluster [?b, ?a] ?a 0 (?w1 [?b, ?a])
      = (Some (TimeoutError (catalog_timeout_msg ?a)), t3, w3)" by blast
  have 2: "fst (wait_for_catalog_sources remdups flash_cluster [example_operator, other_operator] initial_world)
     = Some (TimeoutError (catalog_timeout_msg ?b))"
    by (simp add: wait_for_catalog_sources_def Let_def src fa nb)
  have 3: "fst (wait_for_catalog_sources (\<lambda>xs. rev (remdups xs)) flash_cluster
        [example_operator, other_operator] initial_world)
     = Some (TimeoutError (catalog_timeout_msg ?a))"
    by (simp add: wait_for_catalog_sources_def Let_def src fb na)
  from 1 2 3 e(2) show ?thesis
    by (simp add: catalog_timeout_msg_def l)
qed

end
